theory Spec2Isabelle
  imports Main
begin

section \<open>The game server of chess-platform (socket.js, server part)\<close>

text \<open>
  The server keeps three registries: the module-level \<open>games\<close> map and
  \<open>matchmakingQueue\<close> array, and a \<open>gameTimeouts\<close> map that is declared inside the
  \<open>io.on('connection', ...)\<close> callback, so that every connection has a map of its own.
  Every socket event handler is modelled as a function from the state to the messages it
  emits and either the new state or the exception that ends the handler.

  What the handlers read from outside is an argument of the event: the value of
  \<open>crypto.randomUUID().slice(0, 8)\<close>, of \<open>Math.random() < 0.5\<close> and of \<open>Date.now()\<close>
  (one reading per handler run), and the result of parsing \<open>payload.timeControl\<close>.
  Coordinates are natural numbers, times are integers.
  The rules engine (\<open>moveValidator.mjs\<close>, \<open>chessUtils.js\<close>) is not part of the sources and
  is a parameter of the model.
\<close>

subsection \<open>Data\<close>

datatype color = White | Black

datatype error = TypeError | OracleFault

type_synonym conn_id = string
type_synonym game_id = string
type_synonym timer_id = nat

text \<open>A board cell holds a string; \<open>None\<close> is JavaScript's \<open>undefined\<close> (a read past the
  end of a row, or a hole left by a write past it).\<close>

type_synonym cell = "string option"
type_synonym board = "cell list list"
type_synonym pos = "nat \<times> nat"

record user =
  user_id :: string
  username :: string

record socket =
  sock_id :: conn_id
  sock_user :: "user option"

record player =
  pid :: conn_id
  puser :: "user option"

record players =
  white :: "player option"
  black :: "player option"

record game =
  board :: board
  turn :: color
  players :: players
  check :: "color option"
  timeControl :: int
  whiteTime :: int
  blackTime :: int
  lastMoveTime :: "int option"

record status =
  winner :: "color option"
  reason :: string

datatype msg =
    GAME_ERROR string
  | GAME_CREATED game_id int int
  | GAME_FINDING
  | GAME_JOINED game_id color board int int
  | GAME_STATE board color "nat option" "color option" int int "int option"
  | GAME_OVER status

text \<open>\<open>Emit\<close> is \<open>socket.emit\<close>, \<open>ToRoom\<close> is \<open>io.to(ROOMS.game(gameId)).emit\<close>; the last two
  are the two outcomes of \<open>saveGame\<close>.\<close>

datatype out =
    Emit conn_id msg
  | ToRoom game_id msg
  | DbSave game_id user user status
  | LogNotSaved game_id

record timer =
  owner :: conn_id
  tgame :: game_id
  tcolor :: color
  delay :: int

text \<open>\<open>pending\<close> is the runtime's table of timers that were set and neither cleared nor
  fired; \<open>gameTimeouts c\<close> is the map of connection \<open>c\<close>; \<open>rooms\<close> records \<open>socket.join\<close>;
  \<open>cancelHandlers c\<close> counts the \<open>GAME_FIND_CANCEL\<close> listeners registered on \<open>c\<close>.\<close>

record state =
  games :: "(game_id \<times> game) list"
  matchmakingQueue :: "socket list"
  gameTimeouts :: "conn_id \<Rightarrow> game_id \<Rightarrow> timer_id option"
  pending :: "(timer_id \<times> timer) list"
  nextTimer :: timer_id
  rooms :: "game_id \<Rightarrow> conn_id set"
  cancelHandlers :: "conn_id \<Rightarrow> nat"

type_synonym probe = "board \<Rightarrow> pos \<Rightarrow> pos \<Rightarrow> color \<Rightarrow> error + bool"

text \<open>The rules engine: the WebAssembly export \<open>isValidMove\<close> on the flattened board, and
  \<open>isKingInCheck\<close> and \<open>getGameStatus\<close> of \<open>chessUtils.js\<close>, which call back into the
  legality probe they are given and may let its exception through.\<close>

record engine =
  isValidMove_c :: "nat list \<Rightarrow> nat \<Rightarrow> nat \<Rightarrow> nat \<Rightarrow> nat \<Rightarrow> bool \<Rightarrow> bool"
  isKingInCheck :: "board \<Rightarrow> color \<Rightarrow> probe \<Rightarrow> error + bool"
  getGameStatus :: "board \<Rightarrow> color \<Rightarrow> probe \<Rightarrow> error + status option"

datatype event =
    CREATE socket "int option" game_id
  | FIND socket game_id bool int
  | FIND_CANCEL socket
  | JOIN socket game_id int
  | MOVE socket game_id pos pos int
  | DISCONNECT socket
  | TIMER timer_id

subsection \<open>The games map\<close>

fun games_set :: "(game_id \<times> game) list \<Rightarrow> game_id \<Rightarrow> game \<Rightarrow> (game_id \<times> game) list" where
  "games_set [] k v = [(k, v)]"
| "games_set (p # ps) k v = (if fst p = k then (k, v) # ps else p # games_set ps k v)"

definition games_delete :: "(game_id \<times> game) list \<Rightarrow> game_id \<Rightarrow> (game_id \<times> game) list" where
  "games_delete gs k = filter (\<lambda>p. fst p \<noteq> k) gs"

text \<open>A write to a field of a game object that was fetched from the map: the map sees it
  when the object is still stored there.\<close>

definition mutate :: "game_id \<Rightarrow> game \<Rightarrow> (game_id \<times> game) list \<Rightarrow> (game_id \<times> game) list" where
  "mutate k v gs = map (\<lambda>p. if fst p = k then (k, v) else p) gs"


subsection \<open>Boards and the legality check (lines 61-109)\<close>

definition initialBoard :: board where
  "initialBoard = map (map Some)
    [[''r'', ''n'', ''b'', ''q'', ''k'', ''b'', ''n'', ''r''],
     [''p'', ''p'', ''p'', ''p'', ''p'', ''p'', ''p'', ''p''],
     ['''', '''', '''', '''', '''', '''', '''', ''''],
     ['''', '''', '''', '''', '''', '''', '''', ''''],
     ['''', '''', '''', '''', '''', '''', '''', ''''],
     ['''', '''', '''', '''', '''', '''', '''', ''''],
     [''P'', ''P'', ''P'', ''P'', ''P'', ''P'', ''P'', ''P''],
     [''R'', ''N'', ''B'', ''Q'', ''K'', ''B'', ''N'', ''R'']]"

definition row_get :: "cell list \<Rightarrow> nat \<Rightarrow> cell" where
  "row_get r c = (if c < length r then r ! c else None)"

definition row_set :: "cell list \<Rightarrow> nat \<Rightarrow> cell \<Rightarrow> cell list" where
  "row_set r c v =
     (if c < length r then r[c := v] else r @ replicate (c - length r) None @ [v])"

definition cell_code :: "cell \<Rightarrow> nat" where
  "cell_code c =
     (case c of None \<Rightarrow> 32
      | Some s \<Rightarrow> (case s of [] \<Rightarrow> 32 | ch # _ \<Rightarrow> of_char ch))"

definition flatten :: "board \<Rightarrow> nat list" where
  "flatten b = concat (map (\<lambda>r. map (\<lambda>c. cell_code (row_get (b ! r) c)) [0..<8]) [0..<8])"

text \<open>The loop reads \<open>board[r][c]\<close> for \<open>r, c < 8\<close>: a board of fewer rows throws.\<close>

definition writeBoardToPtr :: "board \<Rightarrow> error + nat list" where
  "writeBoardToPtr b = (if length b < 8 then Inl TypeError else Inr (flatten b))"

text \<open>\<open>t[tr][tc] = b[fr][fc]; t[fr][fc] = ''\<close> on a copy of \<open>b\<close>: lines 80-82, and lines
  328-330 on the game's own board. A row index past the board throws.\<close>

definition moved :: "board \<Rightarrow> pos \<Rightarrow> pos \<Rightarrow> board" where
  "moved b from to =
     (let v = row_get (b ! fst from) (snd from);
          b1 = b[fst to := row_set (b ! fst to) (snd to) v]
      in b1[fst from := row_set (b1 ! fst from) (snd from) (Some [])])"

definition relocate :: "board \<Rightarrow> pos \<Rightarrow> pos \<Rightarrow> error + board" where
  "relocate b from to =
     (if fst to < length b \<and> fst from < length b then Inr (moved b from to)
      else Inl TypeError)"

definition probe_c :: "engine \<Rightarrow> probe" where
  "probe_c orc b f t attackerColor =
     (case writeBoardToPtr b of
        Inl e \<Rightarrow> Inl e
      | Inr p \<Rightarrow> Inr (isValidMove_c orc p (fst f) (snd f) (fst t) (snd t) (attackerColor = White)))"

definition isValidMoveWasm :: "engine \<Rightarrow> probe" where
  "isValidMoveWasm orc b from to trn =
     (case writeBoardToPtr b of
        Inl e \<Rightarrow> Inl e
      | Inr flat \<Rightarrow>
          (case relocate b from to of
             Inl e \<Rightarrow> Inl e
           | Inr temp \<Rightarrow>
               (case isKingInCheck orc temp trn (probe_c orc) of
                  Inl e \<Rightarrow> Inl e
                | Inr leavesKingInCheck \<Rightarrow>
                    Inr (isValidMove_c orc flat (fst from) (snd from) (fst to) (snd to)
                           (trn = White) \<and> \<not> leavesKingInCheck))))"

subsection \<open>saveGame (lines 377-399)\<close>

definition saveGame :: "game_id \<Rightarrow> game \<Rightarrow> status \<Rightarrow> out list" where
  "saveGame gid g st =
     (case white (players g) of
        None \<Rightarrow> [LogNotSaved gid]
      | Some w \<Rightarrow>
          (case puser w of
             None \<Rightarrow> [LogNotSaved gid]
           | Some uw \<Rightarrow>
               (case black (players g) of
                  None \<Rightarrow> [LogNotSaved gid]
                | Some b \<Rightarrow>
                    (case puser b of
                       None \<Rightarrow> [LogNotSaved gid]
                     | Some ub \<Rightarrow> [DbSave gid uw ub st]))))"

subsection \<open>The timeout logic of one connection (lines 166-197)\<close>

definition clearGameTimeout :: "conn_id \<Rightarrow> game_id \<Rightarrow> state \<Rightarrow> state" where
  "clearGameTimeout c gid s =
     (case gameTimeouts s c gid of
        None \<Rightarrow> s
      | Some tid \<Rightarrow>
          s\<lparr>pending := filter (\<lambda>p. fst p \<noteq> tid) (pending s),
            gameTimeouts := (gameTimeouts s)(c := (gameTimeouts s c)(gid := None))\<rparr>)"

definition handleTimeout :: "conn_id \<Rightarrow> game_id \<Rightarrow> color \<Rightarrow> state \<Rightarrow> out list \<times> state" where
  "handleTimeout c gid loserColor s =
     (case map_of (games s) gid of
        None \<Rightarrow> ([], s)
      | Some g \<Rightarrow>
          (let st = \<lparr>winner = Some (if loserColor = White then Black else White),
                     reason = ''Timeout''\<rparr>
           in ([ToRoom gid (GAME_OVER st)] @ saveGame gid g st,
               s\<lparr>games := games_delete (games s) gid,
                 gameTimeouts := (gameTimeouts s)(c := (gameTimeouts s c)(gid := None))\<rparr>)))"

definition setGameTimeout ::
  "conn_id \<Rightarrow> game_id \<Rightarrow> int \<Rightarrow> color \<Rightarrow> state \<Rightarrow> out list \<times> state" where
  "setGameTimeout c gid duration col s =
     (let s1 = clearGameTimeout c gid s in
      if duration \<le> 0 then handleTimeout c gid col s1
      else ([],
            s1\<lparr>pending := pending s1 @
                  [(nextTimer s1, \<lparr>owner = c, tgame = gid, tcolor = col, delay = duration + 1000\<rparr>)],
               gameTimeouts := (gameTimeouts s1)(c := (gameTimeouts s1 c)(gid \<mapsto> nextTimer s1)),
               nextTimer := Suc (nextTimer s1)\<rparr>))"

text \<open>The callback of \<open>setTimeout\<close>: the runtime runs it for a timer that is still pending,
  in the closure of the connection that set it.\<close>

definition timer_fire :: "timer_id \<Rightarrow> state \<Rightarrow> out list \<times> state" where
  "timer_fire tid s =
     (case map_of (pending s) tid of
        None \<Rightarrow> ([], s)
      | Some t \<Rightarrow>
          handleTimeout (owner t) (tgame t) (tcolor t)
            (s\<lparr>pending := filter (\<lambda>p. fst p \<noteq> tid) (pending s)\<rparr>))"

subsection \<open>Creating a game (lines 135-164)\<close>

definition new_game :: "players \<Rightarrow> int \<Rightarrow> game" where
  "new_game ps timeMs =
     \<lparr>board = initialBoard, turn = White, players = ps, check = None,
      timeControl = timeMs, whiteTime = timeMs, blackTime = timeMs, lastMoveTime = None\<rparr>"

text \<open>\<open>tc\<close> is the outcome of lines 141-145: \<open>None\<close> when the payload has no truthy
  \<open>timeControl\<close> or \<open>parseInt\<close> gives \<open>NaN\<close>, the parsed integer otherwise.\<close>

definition game_create ::
  "socket \<Rightarrow> int option \<Rightarrow> game_id \<Rightarrow> state \<Rightarrow> out list \<times> (error + state)" where
  "game_create sock tc gid s =
     (case sock_user sock of
        None \<Rightarrow> ([Emit (sock_id sock) (GAME_ERROR ''Authentication required.'')], Inr s)
      | Some u \<Rightarrow>
          (let timeMinutes = (case tc of None \<Rightarrow> 10 | Some n \<Rightarrow> n);
               timeMs = timeMinutes * 60 * 1000
           in ([Emit (sock_id sock) (GAME_CREATED gid timeMs timeMs)],
               Inr (s\<lparr>games := games_set (games s) gid
                         (new_game \<lparr>white = Some \<lparr>pid = sock_id sock, puser = Some u\<rparr>,
                                    black = None\<rparr> timeMs),
                       rooms := (rooms s)(gid := insert (sock_id sock) (rooms s gid))\<rparr>))))"

subsection \<open>Matchmaking (lines 200-257)\<close>

text \<open>\<open>findIndex\<close> followed by \<open>splice(index, 1)\<close>.\<close>

fun remove_first :: "conn_id \<Rightarrow> socket list \<Rightarrow> socket list" where
  "remove_first c [] = []"
| "remove_first c (x # xs) = (if sock_id x = c then xs else x # remove_first c xs)"

definition enqueue :: "socket \<Rightarrow> state \<Rightarrow> state" where
  "enqueue sock s =
     s\<lparr>cancelHandlers :=
         (cancelHandlers s)(sock_id sock := Suc (cancelHandlers s (sock_id sock))),
       matchmakingQueue := matchmakingQueue s @ [sock]\<rparr>"

text \<open>The body of \<open>if (matchmakingQueue.length >= 2)\<close>, run in the closure of
  connection \<open>c\<close>.\<close>

definition pair_up :: "conn_id \<Rightarrow> game_id \<Rightarrow> bool \<Rightarrow> int \<Rightarrow> state \<Rightarrow> out list \<times> state" where
  "pair_up c gid coin now s =
     (case matchmakingQueue s of
        player1Socket # player2Socket # rest \<Rightarrow>
          (let pl1 = \<lparr>pid = sock_id player1Socket, puser = sock_user player1Socket\<rparr>;
               pl2 = \<lparr>pid = sock_id player2Socket, puser = sock_user player2Socket\<rparr>;
               w = (if coin then pl1 else pl2);
               b = (if coin then pl2 else pl1);
               g = new_game \<lparr>white = Some w, black = Some b\<rparr> (10 * 60 * 1000);
               s1 = s\<lparr>matchmakingQueue := rest,
                      games := games_set (games s) gid g,
                      rooms := (rooms s)(gid := insert (sock_id player2Socket)
                                 (insert (sock_id player1Socket) (rooms s gid)))\<rparr>;
               joined1 = GAME_JOINED gid (if pid w = sock_id player1Socket then White else Black)
                           (board g) (whiteTime g) (blackTime g);
               joined2 = GAME_JOINED gid (if pid w = sock_id player2Socket then White else Black)
                           (board g) (whiteTime g) (blackTime g);
               st = GAME_STATE (board g) White (Some 2) None (whiteTime g) (blackTime g)
                      (lastMoveTime g);
               s2 = s1\<lparr>games := mutate gid (g\<lparr>lastMoveTime := Some now\<rparr>) (games s1)\<rparr>
           in (case setGameTimeout c gid (whiteTime g) White s2 of
                 (o1, s3) \<Rightarrow>
                   ([Emit (sock_id player1Socket) joined1, Emit (sock_id player2Socket) joined2,
                     ToRoom gid st] @ o1, s3)))
      | _ \<Rightarrow> ([], s))"

definition game_find ::
  "socket \<Rightarrow> game_id \<Rightarrow> bool \<Rightarrow> int \<Rightarrow> state \<Rightarrow> out list \<times> (error + state)" where
  "game_find sock gid coin now s =
     (case sock_user sock of
        None \<Rightarrow> ([Emit (sock_id sock) (GAME_ERROR ''Authentication required.'')], Inr s)
      | Some u \<Rightarrow>
          (let s1 = enqueue sock s in
           if 2 \<le> length (matchmakingQueue s1) then
             (case pair_up (sock_id sock) gid coin now s1 of
                (o1, s2) \<Rightarrow> (Emit (sock_id sock) GAME_FINDING # o1, Inr s2))
           else ([Emit (sock_id sock) GAME_FINDING], Inr s1)))"

text \<open>Every \<open>GAME_FIND\<close> of an authenticated connection registers one more listener, and
  each of them removes the first matching entry.\<close>

definition game_find_cancel :: "socket \<Rightarrow> state \<Rightarrow> out list \<times> (error + state)" where
  "game_find_cancel sock s =
     ([], Inr (s\<lparr>matchmakingQueue :=
                  (remove_first (sock_id sock) ^^ cancelHandlers s (sock_id sock))
                    (matchmakingQueue s)\<rparr>))"

subsection \<open>Joining a game (lines 259-287)\<close>

definition game_join :: "socket \<Rightarrow> game_id \<Rightarrow> int \<Rightarrow> state \<Rightarrow> out list \<times> (error + state)" where
  "game_join sock gid now s =
     (case sock_user sock of
        None \<Rightarrow> ([Emit (sock_id sock) (GAME_ERROR ''Authentication required.'')], Inr s)
      | Some u \<Rightarrow>
          (case map_of (games s) gid of
             None \<Rightarrow> ([Emit (sock_id sock) (GAME_ERROR ''Game not found.'')], Inr s)
           | Some g \<Rightarrow>
               (case black (players g) of
                  Some b \<Rightarrow> ([Emit (sock_id sock) (GAME_ERROR ''Game is full.'')], Inr s)
                | None \<Rightarrow>
                    (case white (players g) of
                       None \<Rightarrow> ([], Inl TypeError)
                     | Some w \<Rightarrow>
                         if pid w = sock_id sock then
                           ([Emit (sock_id sock) (GAME_ERROR ''You have already joined.'')], Inr s)
                         else
                           (let g1 = g\<lparr>players := (players g)
                                        \<lparr>black := Some \<lparr>pid = sock_id sock, puser = Some u\<rparr>\<rparr>\<rparr>;
                                s1 = s\<lparr>games := mutate gid g1 (games s),
                                       rooms := (rooms s)
                                         (gid := insert (sock_id sock) (rooms s gid))\<rparr>;
                                joined = GAME_JOINED gid Black (board g1) (whiteTime g1)
                                           (blackTime g1);
                                st = GAME_STATE (board g1) (turn g1) (Some 2) (check g1)
                                       (whiteTime g1) (blackTime g1) (lastMoveTime g1);
                                g2 = g1\<lparr>lastMoveTime := Some now\<rparr>;
                                s2 = s1\<lparr>games := mutate gid g2 (games s1)\<rparr>
                            in (case setGameTimeout (sock_id sock) gid (whiteTime g2) White s2 of
                                  (o1, s3) \<Rightarrow>
                                    ([Emit (sock_id sock) joined, ToRoom gid st] @ o1,
                                     Inr s3)))))))"

subsection \<open>Moving (lines 289-352)\<close>

text \<open>Lines 299-307. \<open>if (game.lastMoveTime)\<close> is JavaScript truthiness: \<open>null\<close> and \<open>0\<close>
  are both false.\<close>

definition charge :: "game \<Rightarrow> int \<Rightarrow> game" where
  "charge g now =
     (case lastMoveTime g of
        None \<Rightarrow> g
      | Some t \<Rightarrow>
          if t = 0 then g
          else if turn g = White then g\<lparr>whiteTime := whiteTime g - (now - t)\<rparr>
          else g\<lparr>blackTime := blackTime g - (now - t)\<rparr>)"

text \<open>Lines 319-348: what a valid move does once the clocks were found above zero.\<close>

definition move_apply ::
  "engine \<Rightarrow> conn_id \<Rightarrow> game_id \<Rightarrow> pos \<Rightarrow> pos \<Rightarrow> int \<Rightarrow> game \<Rightarrow> state
     \<Rightarrow> out list \<times> (error + state)" where
  "move_apply orc c gid from to now g1 s1 =
     (let g2 = g1\<lparr>lastMoveTime := Some now\<rparr>;
          nextColor = (if turn g2 = White then Black else White);
          nextTime = (if nextColor = White then whiteTime g2 else blackTime g2)
      in (case setGameTimeout c gid nextTime nextColor
                 (s1\<lparr>games := mutate gid g2 (games s1)\<rparr>) of
            (o1, s2) \<Rightarrow>
              (case relocate (board g2) from to of
                 Inl e \<Rightarrow> (o1, Inl e)
               | Inr b \<Rightarrow>
                   (let g3 = g2\<lparr>board := b,
                                turn := (if turn g1 = White then Black else White)\<rparr>
                    in (case isKingInCheck orc b (turn g3) (isValidMoveWasm orc) of
                          Inl e \<Rightarrow> (o1, Inl e)
                        | Inr inCheck \<Rightarrow>
                            (let g4 = g3\<lparr>check := (if inCheck then Some (turn g3) else None)\<rparr>;
                                 s3 = s2\<lparr>games := mutate gid g4 (games s2)\<rparr>;
                                 o2 = o1 @ [ToRoom gid
                                        (GAME_STATE (board g4) (turn g4) None (check g4)
                                           (whiteTime g4) (blackTime g4) (lastMoveTime g4))]
                             in (case getGameStatus orc b (turn g4) (isValidMoveWasm orc) of
                                   Inl e \<Rightarrow> (o2, Inl e)
                                 | Inr None \<Rightarrow> (o2, Inr s3)
                                 | Inr (Some st) \<Rightarrow>
                                     (o2 @ [ToRoom gid (GAME_OVER st)] @ saveGame gid g4 st,
                                      Inr (s3\<lparr>games := games_delete (games s3) gid\<rparr>)))))))))"

definition game_move ::
  "engine \<Rightarrow> socket \<Rightarrow> game_id \<Rightarrow> pos \<Rightarrow> pos \<Rightarrow> int \<Rightarrow> state \<Rightarrow> out list \<times> (error + state)" where
  "game_move orc sock gid from to now s =
     (case map_of (games s) gid of
        None \<Rightarrow> ([], Inr s)
      | Some g \<Rightarrow>
          (case (if turn g = White then white (players g) else black (players g)) of
             None \<Rightarrow> ([], Inl TypeError)
           | Some p \<Rightarrow>
               if sock_id sock \<noteq> pid p then
                 ([Emit (sock_id sock) (GAME_ERROR ''It's not your turn.'')], Inr s)
               else
                 (case isValidMoveWasm orc (board g) from to (turn g) of
                    Inl e \<Rightarrow> ([], Inl e)
                  | Inr valid \<Rightarrow>
                      if valid then
                        (let g1 = charge g now;
                             s1 = s\<lparr>games := mutate gid g1 (games s)\<rparr>
                         in if whiteTime g1 \<le> 0 \<or> blackTime g1 \<le> 0 then
                              (let s2 = clearGameTimeout (sock_id sock) gid s1;
                                   st = \<lparr>winner = Some (if whiteTime g1 \<le> 0 then Black else White),
                                         reason = ''Timeout''\<rparr>
                               in ([ToRoom gid (GAME_OVER st)] @ saveGame gid g1 st,
                                   Inr (s2\<lparr>games := games_delete (games s2) gid\<rparr>)))
                            else move_apply orc (sock_id sock) gid from to now g1 s1)
                      else ([Emit (sock_id sock) (GAME_ERROR ''Invalid move.'')], Inr s))))"

subsection \<open>Disconnecting (lines 354-374)\<close>

definition is_player :: "conn_id \<Rightarrow> player option \<Rightarrow> bool" where
  "is_player c p = (case p of None \<Rightarrow> False | Some q \<Rightarrow> pid q = c)"

definition participates :: "conn_id \<Rightarrow> game \<Rightarrow> bool" where
  "participates c g = (is_player c (white (players g)) \<or> is_player c (black (players g)))"

definition disconnect :: "socket \<Rightarrow> state \<Rightarrow> out list \<times> (error + state)" where
  "disconnect sock s =
     (let s1 = s\<lparr>matchmakingQueue := remove_first (sock_id sock) (matchmakingQueue s)\<rparr> in
      case find (\<lambda>p. participates (sock_id sock) (snd p)) (games s1) of
        None \<Rightarrow> ([], Inr s1)
      | Some (gid, g) \<Rightarrow>
          (let s2 = clearGameTimeout (sock_id sock) gid s1;
               st = \<lparr>winner = Some (if is_player (sock_id sock) (white (players g))
                                     then Black else White),
                     reason = ''Opponent disconnected.''\<rparr>
           in ([ToRoom gid (GAME_OVER st)] @ saveGame gid g st,
               Inr (s2\<lparr>games := games_delete (games s2) gid\<rparr>))))"

subsection \<open>The server as a transition system\<close>

fun step :: "engine \<Rightarrow> state \<Rightarrow> event \<Rightarrow> out list \<times> (error + state)" where
  "step orc s (CREATE sock tc gid) = game_create sock tc gid s"
| "step orc s (FIND sock gid coin now) = game_find sock gid coin now s"
| "step orc s (FIND_CANCEL sock) = game_find_cancel sock s"
| "step orc s (JOIN sock gid now) = game_join sock gid now s"
| "step orc s (MOVE sock gid from to now) = game_move orc sock gid from to now s"
| "step orc s (DISCONNECT sock) = disconnect sock s"
| "step orc s (TIMER tid) = (case timer_fire tid s of (o1, s') \<Rightarrow> (o1, Inr s'))"

text \<open>An exception that leaves a handler ends the run.\<close>

fun run :: "engine \<Rightarrow> state \<Rightarrow> event list \<Rightarrow> out list \<times> (error + state)" where
  "run orc s [] = ([], Inr s)"
| "run orc s (e # es) =
     (case step orc s e of
        (o1, Inl err) \<Rightarrow> (o1, Inl err)
      | (o1, Inr s') \<Rightarrow> (case run orc s' es of (o2, r) \<Rightarrow> (o1 @ o2, r)))"

definition init :: state where
  "init = \<lparr>games = [], matchmakingQueue = [], gameTimeouts = (\<lambda>c. Map.empty), pending = [],
           nextTimer = 0, rooms = (\<lambda>g. {}), cancelHandlers = (\<lambda>c. 0)\<rparr>"

subsection \<open>Sample engines, connections and states\<close>

text \<open>Two stand-ins for the rules engine: \<open>permissive\<close> accepts every move and never
  reports check or an end of the game; \<open>pinning\<close> finds the mover's king attacked after
  every move.\<close>

definition permissive :: engine where
  "permissive = \<lparr>isValidMove_c = (\<lambda>p fr fc tr tc w. True),
                 isKingInCheck = (\<lambda>b c p. Inr False),
                 getGameStatus = (\<lambda>b c p. Inr None)\<rparr>"

definition pinning :: engine where
  "pinning = \<lparr>isValidMove_c = (\<lambda>p fr fc tr tc w. True),
              isKingInCheck = (\<lambda>b c p. Inr True),
              getGameStatus = (\<lambda>b c p. Inr None)\<rparr>"

definition alice :: socket where
  "alice = \<lparr>sock_id = ''A'', sock_user = Some \<lparr>user_id = ''1'', username = ''alice''\<rparr>\<rparr>"

definition bob :: socket where
  "bob = \<lparr>sock_id = ''B'', sock_user = Some \<lparr>user_id = ''2'', username = ''bob''\<rparr>\<rparr>"

text \<open>The state after \<open>alice\<close> created game \<open>g\<close> with the default time control.\<close>

definition lobby_game :: game where
  "lobby_game =
     new_game \<lparr>white = Some \<lparr>pid = ''A'', puser = sock_user alice\<rparr>, black = None\<rparr> 600000"

definition lobby :: state where
  "lobby = init\<lparr>games := [(''g'', lobby_game)], rooms := (\<lambda>g. {})(''g'' := {''A''})\<rparr>"

text \<open>What a run leaves behind: the stored games and the pending timers (none after an
  exception).\<close>

definition final_games :: "out list \<times> (error + state) \<Rightarrow> (game_id \<times> game) list" where
  "final_games r = (case snd r of Inl e \<Rightarrow> [] | Inr s \<Rightarrow> games s)"

definition final_pending :: "out list \<times> (error + state) \<Rightarrow> (timer_id \<times> timer) list" where
  "final_pending r = (case snd r of Inl e \<Rightarrow> [] | Inr s \<Rightarrow> pending s)"

text \<open>The terminal events among the messages of a run, and the game ids they name.\<close>

fun over_of :: "out \<Rightarrow> (game_id \<times> status) list" where
  "over_of (ToRoom gid (GAME_OVER st)) = [(gid, st)]"
| "over_of _ = []"

definition overs :: "out list \<Rightarrow> (game_id \<times> status) list" where
  "overs outs = concat (map over_of outs)"

definition over_ids :: "out list \<Rightarrow> game_id list" where
  "over_ids outs = map fst (overs outs)"

text \<open>The id that a handler takes from \<open>crypto.randomUUID\<close>: \<open>GAME_CREATE\<close> of an
  authenticated connection does, and \<open>GAME_FIND\<close> when the push brings the queue to two
  entries. \<open>fresh_ids\<close> says that along a run every such id differs from the ids taken
  before it (\<open>used\<close>).\<close>

fun draws :: "state \<Rightarrow> event \<Rightarrow> game_id list" where
  "draws s (CREATE sock tc gid) = (if sock_user sock = None then [] else [gid])"
| "draws s (FIND sock gid coin now) =
     (if sock_user sock = None \<or> length (matchmakingQueue s) + 1 < 2 then [] else [gid])"
| "draws s (FIND_CANCEL sock) = []"
| "draws s (JOIN sock gid now) = []"
| "draws s (MOVE sock gid from to now) = []"
| "draws s (DISCONNECT sock) = []"
| "draws s (TIMER tid) = []"

fun fresh_ids :: "engine \<Rightarrow> state \<Rightarrow> game_id list \<Rightarrow> event list \<Rightarrow> bool" where
  "fresh_ids orc s used [] = True"
| "fresh_ids orc s used (e # es) =
     (set (draws s e) \<inter> set used = {} \<and>
      (case snd (step orc s e) of
         Inl err \<Rightarrow> True
       | Inr s' \<Rightarrow> fresh_ids orc s' (draws s e @ used) es))"

text \<open>What one handler run may do: the ids of its terminal events are pairwise different
  and name stored games, and when it returns none of them is stored any more and every
  stored id was stored before or is one of \<open>new\<close>.\<close>

definition tidy :: "state \<Rightarrow> game_id list \<Rightarrow> out list \<times> (error + state) \<Rightarrow> bool" where
  "tidy s new r =
     (distinct (over_ids (fst r)) \<and> set (over_ids (fst r)) \<subseteq> fst ` set (games s) \<and>
      (case snd r of
         Inl e \<Rightarrow> True
       | Inr s' \<Rightarrow> set (over_ids (fst r)) \<inter> fst ` set (games s') = {} \<and>
                  fst ` set (games s') \<subseteq> fst ` set (games s) \<union> set new))"

text \<open>A stored game of \<open>alice\<close> (white) and \<open>bob\<close> (black) whose clock was started at time
  2000.\<close>

definition started_game :: game where
  "started_game =
     lobby_game\<lparr>players := \<lparr>white = Some \<lparr>pid = ''A'', puser = sock_user alice\<rparr>,
                              black = Some \<lparr>pid = ''B'', puser = sock_user bob\<rparr>\<rparr>,
                 lastMoveTime := Some 2000\<rparr>"

definition started :: state where
  "started = init\<lparr>games := [(''g'', started_game)]\<rparr>"

text \<open>\<open>moves_game gid e\<close>: the event is a \<open>GAME_MOVE\<close> that names game \<open>gid\<close>.
  \<open>white_to_move gid s\<close>: the game stored under \<open>gid\<close>, if there is one, has white to
  move.\<close>

fun moves_game :: "game_id \<Rightarrow> event \<Rightarrow> bool" where
  "moves_game gid (MOVE sock g src dst now) = (g = gid)"
| "moves_game gid (CREATE sock tc g) = False"
| "moves_game gid (FIND sock g coin now) = False"
| "moves_game gid (FIND_CANCEL sock) = False"
| "moves_game gid (JOIN sock g now) = False"
| "moves_game gid (DISCONNECT sock) = False"
| "moves_game gid (TIMER tid) = False"

definition white_to_move :: "game_id \<Rightarrow> state \<Rightarrow> bool" where
  "white_to_move gid s = (case map_of (games s) gid of None \<Rightarrow> True | Some g \<Rightarrow> turn g = White)"

section \<open>Properties\<close>

subsection \<open>Basic facts\<close>

lemma length_initialBoard: "length initialBoard = 8"
  by (simp add: initialBoard_def)

lemma lobby_is_reached: "snd (run orc init [CREATE alice None ''g'']) = Inr lobby"
  by (simp add: lobby_def lobby_game_def init_def game_create_def alice_def)

lemma map_of_mutate:
  "map_of (mutate k v gs) k' = (if k' = k then map_option (\<lambda>_. v) (map_of gs k) else map_of gs k')"
  by (induction gs) (auto simp: mutate_def)

lemma map_of_games_set:
  "map_of (games_set gs k v) k' = (if k' = k then Some v else map_of gs k')"
  by (induction gs) auto

lemma map_of_games_delete:
  "map_of (games_delete gs k) k' = (if k' = k then None else map_of gs k')"
  by (induction gs) (auto simp: games_delete_def)

lemma games_clearGameTimeout [simp]: "games (clearGameTimeout c gid s) = games s"
  by (simp add: clearGameTimeout_def split: option.splits)

lemma queue_clearGameTimeout [simp]:
  "matchmakingQueue (clearGameTimeout c gid s) = matchmakingQueue s"
  by (simp add: clearGameTimeout_def split: option.splits)

lemma nextTimer_clearGameTimeout [simp]: "nextTimer (clearGameTimeout c gid s) = nextTimer s"
  by (simp add: clearGameTimeout_def split: option.splits)

lemma rooms_clearGameTimeout [simp]: "rooms (clearGameTimeout c gid s) = rooms s"
  by (simp add: clearGameTimeout_def split: option.splits)

lemma cancelHandlers_clearGameTimeout [simp]:
  "cancelHandlers (clearGameTimeout c gid s) = cancelHandlers s"
  by (simp add: clearGameTimeout_def split: option.splits)

text \<open>With time left on the clock, \<open>setGameTimeout\<close> emits nothing and adds one timer.\<close>

lemma setGameTimeout_arm:
  "0 < d \<Longrightarrow> setGameTimeout c gid d col s =
     ([], (clearGameTimeout c gid s)
            \<lparr>pending := pending (clearGameTimeout c gid s) @
                 [(nextTimer s, \<lparr>owner = c, tgame = gid, tcolor = col, delay = d + 1000\<rparr>)],
             gameTimeouts := (gameTimeouts (clearGameTimeout c gid s))
                 (c := (gameTimeouts (clearGameTimeout c gid s) c)(gid \<mapsto> nextTimer s)),
             nextTimer := Suc (nextTimer s)\<rparr>)"
  by (simp add: setGameTimeout_def Let_def)

lemma setGameTimeout_positive:
  "0 < d \<Longrightarrow> fst (setGameTimeout c gid d col s) = [] \<and>
     games (snd (setGameTimeout c gid d col s)) = games s \<and>
     matchmakingQueue (snd (setGameTimeout c gid d col s)) = matchmakingQueue s"
  by (simp add: setGameTimeout_arm)

lemma isValidMoveWasm_relocate:
  "isValidMoveWasm orc b from to t = Inr v \<Longrightarrow> relocate b from to = Inr (moved b from to)"
  by (auto simp: isValidMoveWasm_def relocate_def split: sum.splits if_splits)

lemma games_enqueue: "games (enqueue c s) = games s"
  by (simp add: enqueue_def)

text \<open>X1. When the side to move is seated, a \<open>GAME_MOVE\<close> from any other connection is
  answered with the turn error, sent to that connection alone, and the state stays as it
  was.\<close>

lemma turn_violation_when_seated:
  assumes "map_of (games s) gid = Some g"
    and "(if turn g = White then white (players g) else black (players g)) = Some p"
    and "sock_id sock \<noteq> pid p"
  shows "game_move orc sock gid from to now s =
           ([Emit (sock_id sock) (GAME_ERROR ''It's not your turn.'')], Inr s)"
  using assms by (simp add: game_move_def)

lemma turn_violation_when_seated_witness:
  "map_of (games lobby) ''g'' = Some lobby_game \<and>
   (if turn lobby_game = White then white (players lobby_game) else black (players lobby_game))
     = Some \<lparr>pid = ''A'', puser = sock_user alice\<rparr> \<and>
   sock_id bob \<noteq> pid \<lparr>pid = ''A'', puser = sock_user alice\<rparr> \<and>
   game_move permissive bob ''g'' (1, 4) (3, 4) 1000 lobby =
     ([Emit ''B'' (GAME_ERROR ''It's not your turn.'')], Inr lobby)"
proof -
  have h1: "map_of (games lobby) ''g'' = Some lobby_game"
    by (simp add: lobby_def init_def)
  have h2: "(if turn lobby_game = White then white (players lobby_game)
             else black (players lobby_game)) = Some \<lparr>pid = ''A'', puser = sock_user alice\<rparr>"
    by (simp add: lobby_game_def new_game_def)
  have h3: "sock_id bob \<noteq> pid \<lparr>pid = ''A'', puser = sock_user alice\<rparr>"
    by (simp add: bob_def)
  show ?thesis
    using turn_violation_when_seated [OF h1 h2 h3, of permissive "(1, 4)" "(3, 4)" 1000] h1 h2 h3
    by (simp add: bob_def)
qed

lemma find_first:
  "\<forall>p \<in> set pre. \<not> P p \<Longrightarrow> P x \<Longrightarrow> find P (pre @ x # post) = Some x"
  by (induction pre) auto

lemma find_none: "\<forall>p \<in> set xs. \<not> P p \<Longrightarrow> find P xs = None"
  by (induction xs) auto

lemma remove_first_single:
  "length q \<le> 1 \<Longrightarrow> c \<notin> sock_id ` set (remove_first c q)"
  by (cases q) auto

lemma pending_clearGameTimeout:
  "pending (clearGameTimeout c gid s) =
     filter (\<lambda>p. Some (fst p) \<noteq> gameTimeouts s c gid) (pending s)"
  by (simp add: clearGameTimeout_def split: option.splits)

text \<open>X2. A valid move of the seated side to move in a game whose \<open>lastMoveTime\<close> is set
  (and not 0) is charged the time since then; when a clock is at or below zero after the
  charge, the game ends on time with the side at or below zero as loser (white when both
  are), it is deleted with its board and turn as they were, and the timer that the mover's
  own connection holds for the id is cleared.\<close>

lemma timeout_on_arrival:
  assumes "map_of (games s) gid = Some g"
    and "(if turn g = White then white (players g) else black (players g)) = Some p"
    and "pid p = sock_id sock"
    and "isValidMoveWasm orc (board g) from to (turn g) = Inr True"
    and "lastMoveTime g = Some t" and "t \<noteq> 0"
    and "g1 = (if turn g = White then g\<lparr>whiteTime := whiteTime g - (now - t)\<rparr>
               else g\<lparr>blackTime := blackTime g - (now - t)\<rparr>)"
    and "whiteTime g1 \<le> 0 \<or> blackTime g1 \<le> 0"
  shows "\<exists>s'. game_move orc sock gid from to now s =
           (ToRoom gid (GAME_OVER \<lparr>winner = Some (if whiteTime g1 \<le> 0 then Black else White),
                                   reason = ''Timeout''\<rparr>) #
            saveGame gid g1 \<lparr>winner = Some (if whiteTime g1 \<le> 0 then Black else White),
                              reason = ''Timeout''\<rparr>,
            Inr s') \<and>
           map_of (games s') gid = None \<and>
           pending s' =
             filter (\<lambda>p. Some (fst p) \<noteq> gameTimeouts s (sock_id sock) gid) (pending s)"
proof -
  have c: "charge g now = g1"
    using assms(5-7) by (simp add: charge_def)
  show ?thesis
    using assms(1-4,8) c
    by (simp add: game_move_def Let_def map_of_games_delete pending_clearGameTimeout
        clearGameTimeout_def split: option.splits)
qed

lemma timeout_on_arrival_witness:
  "map_of (games started) ''g'' = Some started_game \<and>
   (if turn started_game = White then white (players started_game)
    else black (players started_game)) = Some \<lparr>pid = ''A'', puser = sock_user alice\<rparr> \<and>
   pid \<lparr>pid = ''A'', puser = sock_user alice\<rparr> = sock_id alice \<and>
   isValidMoveWasm permissive (board started_game) (6, 4) (4, 4) (turn started_game) = Inr True \<and>
   lastMoveTime started_game = Some 2000 \<and>
   whiteTime (started_game\<lparr>whiteTime := whiteTime started_game - (602500 - 2000)\<rparr>) \<le> 0 \<and>
   (\<exists>s'. game_move permissive alice ''g'' (6, 4) (4, 4) 602500 started =
      ([ToRoom ''g'' (GAME_OVER \<lparr>winner = Some Black, reason = ''Timeout''\<rparr>),
        DbSave ''g'' \<lparr>user_id = ''1'', username = ''alice''\<rparr>
          \<lparr>user_id = ''2'', username = ''bob''\<rparr> \<lparr>winner = Some Black, reason = ''Timeout''\<rparr>],
       Inr s') \<and>
      map_of (games s') ''g'' = None \<and> pending s' = [])"
proof -
  define g1 where "g1 = started_game\<lparr>whiteTime := whiteTime started_game - (602500 - 2000)\<rparr>"
  have h1: "map_of (games started) ''g'' = Some started_game"
    by (simp add: started_def init_def)
  have h2: "(if turn started_game = White then white (players started_game)
    else black (players started_game)) = Some \<lparr>pid = ''A'', puser = sock_user alice\<rparr>"
    by (simp add: started_game_def lobby_game_def new_game_def)
  have h3: "pid \<lparr>pid = ''A'', puser = sock_user alice\<rparr> = sock_id alice"
    by (simp add: alice_def)
  have h4: "isValidMoveWasm permissive (board started_game) (6, 4) (4, 4) (turn started_game)
              = Inr True"
    by (simp add: isValidMoveWasm_def writeBoardToPtr_def relocate_def length_initialBoard
        permissive_def started_game_def lobby_game_def new_game_def)
  have h5: "lastMoveTime started_game = Some 2000"
    by (simp add: started_game_def)
  have h6: "(2000::int) \<noteq> 0"
    by simp
  have h7: "g1 = (if turn started_game = White
                  then started_game\<lparr>whiteTime := whiteTime started_game - (602500 - 2000)\<rparr>
                  else started_game\<lparr>blackTime := blackTime started_game - (602500 - 2000)\<rparr>)"
    by (simp add: g1_def started_game_def lobby_game_def new_game_def)
  have w: "whiteTime g1 = - 500"
    by (simp add: g1_def started_game_def lobby_game_def new_game_def)
  then have h8: "whiteTime g1 \<le> 0 \<or> blackTime g1 \<le> 0"
    by simp
  have sv: "saveGame ''g'' g1 st =
      [DbSave ''g'' \<lparr>user_id = ''1'', username = ''alice''\<rparr>
         \<lparr>user_id = ''2'', username = ''bob''\<rparr> st]" for st
    by (simp add: saveGame_def g1_def started_game_def alice_def bob_def)
  have p: "pending started = []" "gameTimeouts started (sock_id alice) ''g'' = None"
    by (simp_all add: started_def init_def)
  show ?thesis
    using timeout_on_arrival [OF h1 h2 h3 h4 h5 h6 h7 h8] h1 h2 h3 h4 h5 w sv p
    by (auto simp: g1_def)
qed

subsection \<open>One terminal event per stored game\<close>

lemma over_ids_Nil [simp]: "over_ids [] = []"
  by (simp add: over_ids_def overs_def)

lemma over_ids_append [simp]: "over_ids (xs @ ys) = over_ids xs @ over_ids ys"
  by (simp add: over_ids_def overs_def)

lemma over_ids_Cons: "over_ids (x # xs) = map fst (over_of x) @ over_ids xs"
  by (simp add: over_ids_def overs_def)

lemma over_ids_over [simp]: "over_ids (ToRoom gid (GAME_OVER st) # xs) = gid # over_ids xs"
  by (simp add: over_ids_Cons)

lemma over_ids_Emit [simp]: "over_ids (Emit c m # xs) = over_ids xs"
  by (simp add: over_ids_Cons)

lemma over_ids_state [simp]:
  "over_ids (ToRoom gid (GAME_STATE b t n c w k l) # xs) = over_ids xs"
  by (simp add: over_ids_Cons)

lemma over_ids_saveGame [simp]: "over_ids (saveGame gid g st) = []"
  by (simp add: saveGame_def over_ids_Cons split: option.splits)

lemma keys_mutate [simp]: "fst ` set (mutate k v gs) = fst ` set gs"
  by (induction gs) (auto simp: mutate_def)

lemma keys_games_set [simp]: "fst ` set (games_set gs k v) = insert k (fst ` set gs)"
  by (induction gs) auto

lemma keys_games_delete [simp]: "fst ` set (games_delete gs k) = fst ` set gs - {k}"
  by (auto simp: games_delete_def)

lemma map_of_Some_key: "map_of gs k = Some v \<Longrightarrow> k \<in> fst ` set gs"
  by (metis map_of_eq_None_iff option.distinct(1))

lemma handleTimeout_overs:
  "over_ids (fst (handleTimeout c gid l s)) = (if gid \<in> fst ` set (games s) then [gid] else [])"
  by (auto simp: handleTimeout_def Let_def map_of_eq_None_iff split: option.splits
      dest: map_of_Some_key)

lemma handleTimeout_keys:
  "fst ` set (games (snd (handleTimeout c gid l s))) = fst ` set (games s) - {gid}"
  by (auto simp: handleTimeout_def Let_def map_of_eq_None_iff split: option.splits)

lemma handleTimeout_queue [simp]:
  "matchmakingQueue (snd (handleTimeout c gid l s)) = matchmakingQueue s"
  by (simp add: handleTimeout_def Let_def split: option.splits)

lemma setGameTimeout_queue [simp]:
  "matchmakingQueue (snd (setGameTimeout c gid d col s)) = matchmakingQueue s"
  by (simp add: setGameTimeout_def Let_def)

lemma setGameTimeout_overs:
  "over_ids (fst (setGameTimeout c gid d col s)) =
     (if d \<le> 0 \<and> gid \<in> fst ` set (games s) then [gid] else [])"
  by (simp add: setGameTimeout_def Let_def handleTimeout_overs)

lemma setGameTimeout_keys:
  "fst ` set (games (snd (setGameTimeout c gid d col s))) =
     (if d \<le> 0 then fst ` set (games s) - {gid} else fst ` set (games s))"
  by (simp add: setGameTimeout_def Let_def handleTimeout_keys)

lemma tidy_create: "tidy s (draws s (CREATE sock tc gid)) (game_create sock tc gid s)"
  by (auto simp: tidy_def game_create_def Let_def split: option.splits)

lemma tidy_find: "tidy s (draws s (FIND sock gid coin now)) (game_find sock gid coin now s)"
proof (cases "sock_user sock")
  case None
  then show ?thesis by (simp add: tidy_def game_find_def)
next
  case (Some u)
  show ?thesis
  proof (cases "matchmakingQueue s")
    case Nil
    then show ?thesis
      using Some by (simp add: tidy_def game_find_def enqueue_def Let_def)
  next
    case (Cons p ps)
    then obtain p2 rest where q: "matchmakingQueue (enqueue sock s) = p # p2 # rest"
      by (cases ps) (auto simp: enqueue_def)
    then show ?thesis
      using Some Cons
      by (auto simp: tidy_def game_find_def pair_up_def Let_def setGameTimeout_arm new_game_def
          games_enqueue)
  qed
qed

lemma tidy_find_cancel: "tidy s [] (game_find_cancel sock s)"
  by (simp add: tidy_def game_find_cancel_def)

lemma tidy_join: "tidy s [] (game_join sock gid now s)"
  by (auto simp: tidy_def game_join_def Let_def case_prod_beta setGameTimeout_overs
      setGameTimeout_keys split: option.splits dest: map_of_Some_key)


lemma tidy_move_apply:
  assumes "0 < whiteTime g1" and "0 < blackTime g1" and "gid \<in> fst ` set (games s1)"
  shows "tidy s1 [] (move_apply orc c gid from to now g1 s1)"
  using assms
  by (cases "turn g1")
    (auto simp: tidy_def move_apply_def Let_def setGameTimeout_arm
      split: sum.splits option.splits)

lemma game_move_cases:
  obtains (quiet) "game_move orc sock gid src dst now s = ([], Inr s)"
  | (throws) e where "game_move orc sock gid src dst now s = ([], Inl e)"
  | (refused) m where
      "game_move orc sock gid src dst now s = ([Emit (sock_id sock) (GAME_ERROR m)], Inr s)"
  | (flagged) g st where "map_of (games s) gid = Some g"
      "game_move orc sock gid src dst now s =
         ([ToRoom gid (GAME_OVER st)] @ saveGame gid (charge g now) st,
          Inr ((clearGameTimeout (sock_id sock) gid
                  (s\<lparr>games := mutate gid (charge g now) (games s)\<rparr>))
               \<lparr>games := games_delete (mutate gid (charge g now) (games s)) gid\<rparr>))"
  | (applied) g where "map_of (games s) gid = Some g"
      "0 < whiteTime (charge g now)" "0 < blackTime (charge g now)"
      "game_move orc sock gid src dst now s =
         move_apply orc (sock_id sock) gid src dst now (charge g now)
           (s\<lparr>games := mutate gid (charge g now) (games s)\<rparr>)"
proof (cases "map_of (games s) gid")
  case None
  then show ?thesis using quiet by (simp add: game_move_def)
next
  case g: (Some g)
  show ?thesis
  proof (cases "if turn g = White then white (players g) else black (players g)")
    case None
    then show ?thesis using throws g by (simp add: game_move_def)
  next
    case p: (Some p)
    show ?thesis
    proof (cases "sock_id sock = pid p")
      case False
      then show ?thesis using refused g p by (simp add: game_move_def)
    next
      case True
      show ?thesis
      proof (cases "isValidMoveWasm orc (board g) src dst (turn g)")
        case (Inl e)
        then show ?thesis using throws g p True by (simp add: game_move_def)
      next
        case (Inr valid)
        show ?thesis
        proof (cases valid)
          case False
          then show ?thesis using refused g p True Inr by (simp add: game_move_def)
        next
          case v: True
          show ?thesis
          proof (cases "whiteTime (charge g now) \<le> 0 \<or> blackTime (charge g now) \<le> 0")
            case True
            then show ?thesis
              using flagged [OF g] g p \<open>sock_id sock = pid p\<close> Inr v
              by (simp add: game_move_def Let_def)
          next
            case False
            then show ?thesis
              using applied [OF g] g p \<open>sock_id sock = pid p\<close> Inr v
              by (simp add: game_move_def Let_def)
          qed
        qed
      qed
    qed
  qed
qed

lemma tidy_move: "tidy s [] (game_move orc sock gid src dst now s)"
proof (cases rule: game_move_cases [of orc sock gid src dst now s])
  case quiet
  then show ?thesis by (simp add: tidy_def)
next
  case (throws e)
  then show ?thesis by (simp add: tidy_def)
next
  case (refused m)
  then show ?thesis by (simp add: tidy_def)
next
  case (flagged g st)
  then show ?thesis by (auto simp: tidy_def dest: map_of_Some_key)
next
  case (applied g)
  have "tidy (s\<lparr>games := mutate gid (charge g now) (games s)\<rparr>) []
          (move_apply orc (sock_id sock) gid src dst now (charge g now)
             (s\<lparr>games := mutate gid (charge g now) (games s)\<rparr>))"
    using applied(1-3) by (intro tidy_move_apply) (simp_all add: map_of_Some_key)
  then show ?thesis
    unfolding applied(4) by (auto simp: tidy_def split: sum.splits)
qed

lemma find_Some_mem: "find P xs = Some x \<Longrightarrow> x \<in> set xs"
  by (induction xs) (auto split: if_splits)

lemma tidy_disconnect: "tidy s [] (disconnect sock s)"
  by (force simp: tidy_def disconnect_def Let_def split: option.splits
      dest!: find_Some_mem)

lemma tidy_timer: "tidy s [] (case timer_fire tid s of (o1, s') \<Rightarrow> (o1, Inr s'))"
  by (auto simp: tidy_def timer_fire_def case_prod_beta handleTimeout_overs handleTimeout_keys
      split: option.splits)

lemma tidy_step: "tidy s (draws s e) (step orc s e)"
proof (cases e)
  case (CREATE sock tc gid)
  show ?thesis unfolding CREATE step.simps by (rule tidy_create)
next
  case (FIND sock gid coin now)
  show ?thesis unfolding FIND step.simps by (rule tidy_find)
next
  case (FIND_CANCEL sock)
  show ?thesis unfolding FIND_CANCEL step.simps draws.simps by (rule tidy_find_cancel)
next
  case (JOIN sock gid now)
  show ?thesis unfolding JOIN step.simps draws.simps by (rule tidy_join)
next
  case (MOVE sock gid src dst now)
  show ?thesis unfolding MOVE step.simps draws.simps by (rule tidy_move)
next
  case (DISCONNECT sock)
  show ?thesis unfolding DISCONNECT step.simps draws.simps by (rule tidy_disconnect)
next
  case (TIMER tid)
  show ?thesis unfolding TIMER step.simps draws.simps by (rule tidy_timer)
qed


lemma run_tidy:
  assumes "fresh_ids orc s used evs" and "fst ` set (games s) \<subseteq> set used"
  shows "distinct (over_ids (fst (run orc s evs))) \<and>
         (\<forall>g \<in> set (over_ids (fst (run orc s evs))). g \<in> fst ` set (games s) \<or> g \<notin> set used)"
  using assms
proof (induction evs arbitrary: s used)
  case Nil
  then show ?case by simp
next
  case (Cons e es)
  obtain o1 r where st: "step orc s e = (o1, r)"
    by (cases "step orc s e")
  have t: "tidy s (draws s e) (o1, r)"
    using tidy_step [of s e orc] st by simp
  then have d1: "distinct (over_ids o1)" and k1: "set (over_ids o1) \<subseteq> fst ` set (games s)"
    by (simp_all add: tidy_def)
  show ?case
  proof (cases r)
    case (Inl err)
    then show ?thesis
      using st d1 k1 by auto
  next
    case (Inr s')
    have gone: "set (over_ids o1) \<inter> fst ` set (games s') = {}"
      and keys': "fst ` set (games s') \<subseteq> fst ` set (games s) \<union> set (draws s e)"
      using t Inr by (simp_all add: tidy_def)
    have new: "set (draws s e) \<inter> set used = {}"
      and fr: "fresh_ids orc s' (draws s e @ used) es"
      using Cons.prems(1) st Inr by simp_all
    have sub: "fst ` set (games s') \<subseteq> set (draws s e @ used)"
      using keys' Cons.prems(2) by auto
    obtain o2 r2 where rn: "run orc s' es = (o2, r2)"
      by (cases "run orc s' es")
    have d2: "distinct (over_ids o2)"
      and k2: "\<forall>g \<in> set (over_ids o2). g \<in> fst ` set (games s') \<or> g \<notin> set (draws s e @ used)"
      using Cons.IH [OF fr sub] rn by simp_all
    have whole: "fst (run orc s (e # es)) = o1 @ o2"
      using st Inr rn by simp
    have disj: "set (over_ids o1) \<inter> set (over_ids o2) = {}"
    proof (rule ccontr)
      assume "set (over_ids o1) \<inter> set (over_ids o2) \<noteq> {}"
      then obtain g where g1: "g \<in> set (over_ids o1)" and g2: "g \<in> set (over_ids o2)"
        by auto
      from g1 k1 Cons.prems(2) have "g \<in> set used" by auto
      with g2 k2 have "g \<in> fst ` set (games s')" by auto
      with g1 gone show False by auto
    qed
    have origin: "g \<in> fst ` set (games s) \<or> g \<notin> set used" if "g \<in> set (over_ids o2)" for g
    proof (cases "g \<in> fst ` set (games s')")
      case True
      then show ?thesis using keys' new by auto
    next
      case False
      then show ?thesis using k2 that by auto
    qed
    show ?thesis
      unfolding whole using d1 d2 disj k1 origin by auto
  qed
qed

lemma distinct_count_le1: "distinct xs \<Longrightarrow> count_list xs x \<le> 1"
  by (induction xs) auto

lemma length_remove_first: "length (remove_first c q) \<le> length q"
  by (induction q) auto

lemma length_remove_first_funpow: "length ((remove_first c ^^ n) q) \<le> length q"
proof (induction n)
  case 0
  then show ?case by simp
next
  case (Suc n)
  have "length (remove_first c ((remove_first c ^^ n) q)) \<le> length ((remove_first c ^^ n) q)"
    by (rule length_remove_first)
  with Suc show ?case by simp
qed

lemma move_apply_queue:
  "snd (move_apply orc c gid src dst now g1 s1) = Inr s' \<Longrightarrow>
     matchmakingQueue s' = matchmakingQueue s1"
  by (auto simp: move_apply_def Let_def case_prod_beta split: sum.splits option.splits)

lemma game_move_queue:
  assumes "snd (game_move orc sock gid src dst now s) = Inr s'"
  shows "matchmakingQueue s' = matchmakingQueue s"
proof (cases rule: game_move_cases [of orc sock gid src dst now s])
  case quiet
  then show ?thesis using assms by simp
next
  case (throws e)
  then show ?thesis using assms by simp
next
  case (refused m)
  then show ?thesis using assms by simp
next
  case (flagged g st)
  then show ?thesis using assms by auto
next
  case (applied g)
  then show ?thesis using assms move_apply_queue [of orc "sock_id sock" gid src dst now
      "charge g now" "s\<lparr>games := mutate gid (charge g now) (games s)\<rparr>" s'] by simp
qed

lemma step_queue:
  assumes "length (matchmakingQueue s) \<le> 1" and "snd (step orc s e) = Inr s'"
  shows "length (matchmakingQueue s') \<le> 1"
proof (cases e)
  case (CREATE sock tc gid)
  then show ?thesis
    using assms by (auto simp: game_create_def Let_def split: option.splits)
next
  case (FIND sock gid coin now)
  show ?thesis
  proof (cases "matchmakingQueue s")
    case Nil
    then show ?thesis
      using assms FIND by (auto simp: game_find_def enqueue_def Let_def split: option.splits)
  next
    case (Cons p ps)
    then have "ps = []" using assms(1) by simp
    then show ?thesis
      using assms FIND Cons
      by (auto simp: game_find_def enqueue_def pair_up_def Let_def case_prod_beta
          split: option.splits)
  qed
next
  case (FIND_CANCEL sock)
  then show ?thesis
    using assms length_remove_first_funpow [where c = "sock_id sock"
        and n = "cancelHandlers s (sock_id sock)" and q = "matchmakingQueue s"]
    by (auto simp: game_find_cancel_def)
next
  case (JOIN sock gid now)
  then show ?thesis
    using assms
    by (auto simp: game_join_def Let_def case_prod_beta split: option.splits if_splits)
next
  case (MOVE sock gid src dst now)
  then show ?thesis
    using assms game_move_queue [of orc sock gid src dst now s s'] by simp
next
  case (DISCONNECT sock)
  then show ?thesis
    using assms length_remove_first [of "sock_id sock" "matchmakingQueue s"]
    by (auto simp: disconnect_def Let_def split: option.splits)
next
  case (TIMER tid)
  then show ?thesis
    using assms by (auto simp: timer_fire_def case_prod_beta split: option.splits)
qed

lemma run_queue:
  "length (matchmakingQueue s) \<le> 1 \<Longrightarrow> snd (run orc s evs) = Inr s' \<Longrightarrow>
     length (matchmakingQueue s') \<le> 1"
proof (induction evs arbitrary: s)
  case Nil
  then show ?case by simp
next
  case (Cons e es)
  obtain o1 r where st: "step orc s e = (o1, r)"
    by (cases "step orc s e")
  show ?case
  proof (cases r)
    case (Inl err)
    then show ?thesis using Cons.prems(2) st by simp
  next
    case (Inr s1)
    then have "length (matchmakingQueue s1) \<le> 1"
      using step_queue [OF Cons.prems(1), of orc e s1] st by simp
    moreover have "snd (run orc s1 es) = Inr s'"
      using Cons.prems(2) st Inr by (simp add: case_prod_beta)
    ultimately show ?thesis by (rule Cons.IH)
  qed
qed

text \<open>X3. Every state that a run from the empty server reaches has at most one queued
  connection.\<close>

lemma queue_at_most_one:
  "snd (run orc init evs) = Inr s \<Longrightarrow> length (matchmakingQueue s) \<le> 1"
  using run_queue [of init orc evs s] by (simp add: init_def)

lemma queue_at_most_one_witness:
  "snd (run permissive init [FIND alice ''g1'' True 1000]) = Inr (enqueue alice init) \<and>
   length (matchmakingQueue (enqueue alice init)) \<le> 1"
proof -
  have h: "snd (run permissive init [FIND alice ''g1'' True 1000]) = Inr (enqueue alice init)"
    by (simp add: game_find_def enqueue_def init_def alice_def Let_def)
  show ?thesis
    using queue_at_most_one [OF h] h by simp
qed

subsection \<open>The side to move of a game that was not moved in\<close>

lemma handleTimeout_map_of:
  "map_of (games (snd (handleTimeout c gid l s))) k =
     (if k = gid then None else map_of (games s) k)"
  by (auto simp: handleTimeout_def Let_def map_of_games_delete split: option.splits)

lemma setGameTimeout_map_of:
  "map_of (games (snd (setGameTimeout c gid d col s))) k =
     (if d \<le> 0 \<and> k = gid then None else map_of (games s) k)"
  by (simp add: setGameTimeout_def Let_def handleTimeout_map_of)

lemma move_apply_other:
  "snd (move_apply orc c gid src dst now g1 s1) = Inr s' \<Longrightarrow> k \<noteq> gid \<Longrightarrow>
     map_of (games s') k = map_of (games s1) k"
  by (auto simp: move_apply_def Let_def case_prod_beta setGameTimeout_map_of map_of_mutate
      map_of_games_delete split: sum.splits option.splits)

lemma game_move_other:
  assumes "snd (game_move orc sock gid src dst now s) = Inr s'" and "k \<noteq> gid"
  shows "map_of (games s') k = map_of (games s) k"
proof (cases rule: game_move_cases [of orc sock gid src dst now s])
  case quiet
  then show ?thesis using assms by simp
next
  case (throws e)
  then show ?thesis using assms by simp
next
  case (refused m)
  then show ?thesis using assms by simp
next
  case (flagged g st)
  then show ?thesis using assms by (auto simp: map_of_games_delete map_of_mutate)
next
  case (applied g)
  then show ?thesis
    using assms move_apply_other [of orc "sock_id sock" gid src dst now "charge g now"
      "s\<lparr>games := mutate gid (charge g now) (games s)\<rparr>" s' k]
    by (simp add: map_of_mutate)
qed

lemma step_white_to_move:
  assumes "\<not> moves_game gid e" and "white_to_move gid s" and "snd (step orc s e) = Inr s'"
  shows "white_to_move gid s'"
proof (cases e)
  case (CREATE sock tc g)
  then show ?thesis
    using assms
    by (auto simp: white_to_move_def game_create_def Let_def map_of_games_set new_game_def
        split: option.splits if_splits)
next
  case (FIND sock g coin now)
  then show ?thesis
    using assms
    by (auto simp: white_to_move_def game_find_def pair_up_def enqueue_def Let_def
        case_prod_beta setGameTimeout_map_of map_of_mutate map_of_games_set new_game_def
        split: option.splits list.splits if_splits)
next
  case (FIND_CANCEL sock)
  then show ?thesis
    using assms by (auto simp: white_to_move_def game_find_cancel_def)
next
  case (JOIN sock g now)
  then show ?thesis
    using assms
    by (auto simp: white_to_move_def game_join_def Let_def case_prod_beta
        setGameTimeout_map_of map_of_mutate split: option.splits if_splits)
next
  case (MOVE sock g src dst now)
  then have "map_of (games s') gid = map_of (games s) gid"
    using assms game_move_other [of orc sock g src dst now s s' gid] by simp
  then show ?thesis
    using assms(2) by (simp add: white_to_move_def)
next
  case (DISCONNECT sock)
  then show ?thesis
    using assms
    by (auto simp: white_to_move_def disconnect_def Let_def map_of_games_delete
        split: option.splits if_splits)
next
  case (TIMER tid)
  then show ?thesis
    using assms
    by (auto simp: white_to_move_def timer_fire_def case_prod_beta handleTimeout_map_of
        split: option.splits if_splits)
qed

lemma run_white_to_move:
  "\<forall>e \<in> set evs. \<not> moves_game gid e \<Longrightarrow> white_to_move gid s \<Longrightarrow>
     snd (run orc s evs) = Inr s' \<Longrightarrow> white_to_move gid s'"
proof (induction evs arbitrary: s)
  case Nil
  then show ?case by simp
next
  case (Cons e es)
  obtain o1 r where st: "step orc s e = (o1, r)"
    by (cases "step orc s e")
  show ?case
  proof (cases r)
    case (Inl err)
    then show ?thesis using Cons.prems(3) st by simp
  next
    case (Inr s1)
    have "white_to_move gid s1"
      using step_white_to_move [of gid e s orc s1] Cons.prems(1,2) st Inr by simp
    moreover have "snd (run orc s1 es) = Inr s'"
      using Cons.prems(3) st Inr by (simp add: case_prod_beta)
    moreover have "\<forall>e \<in> set es. \<not> moves_game gid e"
      using Cons.prems(1) by simp
    ultimately show ?thesis using Cons.IH by blast
  qed
qed

text \<open>In every state that a run from the empty server reaches without a \<open>GAME_MOVE\<close> for
  an id, the game stored under the id has white to move.\<close>

lemma unmoved_game_white_to_move:
  assumes "snd (run orc init evs) = Inr s" and "\<forall>e \<in> set evs. \<not> moves_game gid e"
    and "map_of (games s) gid = Some g"
  shows "turn g = White"
proof -
  have "white_to_move gid init"
    by (simp add: white_to_move_def init_def)
  then have "white_to_move gid s"
    using run_white_to_move [OF assms(2) _ assms(1)] by simp
  then show ?thesis
    using assms(3) by (simp add: white_to_move_def)
qed

text \<open>What a successful \<open>GAME_JOIN\<close> does, in any state.\<close>

lemma join_effect:
  assumes "sock_user sock = Some u"
    and "map_of (games s) gid = Some g"
    and "black (players g) = None"
    and "white (players g) = Some w"
    and "pid w \<noteq> sock_id sock"
  shows "\<exists>o1 s'.
           game_join sock gid now s =
             ([Emit (sock_id sock) (GAME_JOINED gid Black (board g) (whiteTime g) (blackTime g)),
               ToRoom gid (GAME_STATE (board g) (turn g) (Some 2) (check g)
                  (whiteTime g) (blackTime g) (lastMoveTime g))] @ o1,
              Inr s') \<and>
           sock_id sock \<in> rooms s' gid \<and>
           (if 0 < whiteTime g then
              o1 = [] \<and>
              map_of (games s') gid =
                Some (g\<lparr>players := (players g)
                          \<lparr>black := Some \<lparr>pid = sock_id sock, puser = Some u\<rparr>\<rparr>,
                        lastMoveTime := Some now\<rparr>) \<and>
              gameTimeouts s' (sock_id sock) gid = Some (nextTimer s) \<and>
              pending s' =
                filter (\<lambda>p. Some (fst p) \<noteq> gameTimeouts s (sock_id sock) gid) (pending s) @
                [(nextTimer s, \<lparr>owner = sock_id sock, tgame = gid, tcolor = White,
                                 delay = whiteTime g + 1000\<rparr>)]
            else
              o1 = ToRoom gid (GAME_OVER \<lparr>winner = Some Black, reason = ''Timeout''\<rparr>) #
                   saveGame gid
                     (g\<lparr>players := (players g)
                          \<lparr>black := Some \<lparr>pid = sock_id sock, puser = Some u\<rparr>\<rparr>,
                        lastMoveTime := Some now\<rparr>)
                     \<lparr>winner = Some Black, reason = ''Timeout''\<rparr> \<and>
              map_of (games s') gid = None)"
proof (cases "0 < whiteTime g")
  case True
  then show ?thesis
    using assms
    by (simp add: game_join_def Let_def setGameTimeout_arm map_of_mutate
        pending_clearGameTimeout)
next
  case False
  then show ?thesis
    using assms
    by (simp add: game_join_def Let_def setGameTimeout_def handleTimeout_def map_of_mutate
        map_of_games_delete)
qed

subsection \<open>Rejected moves\<close>

text \<open>
  C6. A move that the engine's \<open>isValidMove\<close> accepts on the current board, but after
  whose simulation \<open>isKingInCheck\<close> finds the mover's own king attacked, is answered with the
  single message \<open>GAME_ERROR "Invalid move."\<close> to the mover's socket; the state (games with
  their boards, turns and clocks, the timers, the queue) is returned as it was.
\<close>

theorem C6_self_check_rejected:
  assumes "map_of (games s) gid = Some g"
    and "(if turn g = White then white (players g) else black (players g)) = Some p"
    and "pid p = sock_id sock"
    and "8 \<le> length (board g)" and "fst from < length (board g)" and "fst to < length (board g)"
    and "isValidMove_c orc (flatten (board g)) (fst from) (snd from) (fst to) (snd to)
           (turn g = White)"
    and "isKingInCheck orc (moved (board g) from to) (turn g) (probe_c orc) = Inr True"
  shows "game_move orc sock gid from to now s =
           ([Emit (sock_id sock) (GAME_ERROR ''Invalid move.'')], Inr s)"
proof -
  have "isValidMoveWasm orc (board g) from to (turn g) = Inr False"
    using assms(4-8) by (simp add: isValidMoveWasm_def writeBoardToPtr_def relocate_def)
  then show ?thesis
    using assms(1-3) by (simp add: game_move_def)
qed

theorem C6_self_check_rejected_witness:
  "map_of (games lobby) ''g'' = Some lobby_game \<and>
   (if turn lobby_game = White then white (players lobby_game) else black (players lobby_game))
     = Some \<lparr>pid = ''A'', puser = sock_user alice\<rparr> \<and>
   pid \<lparr>pid = ''A'', puser = sock_user alice\<rparr> = sock_id alice \<and>
   8 \<le> length (board lobby_game) \<and>
   isValidMove_c pinning (flatten (board lobby_game)) 6 4 4 4 (turn lobby_game = White) \<and>
   isKingInCheck pinning (moved (board lobby_game) (6, 4) (4, 4)) (turn lobby_game)
     (probe_c pinning) = Inr True \<and>
   game_move pinning alice ''g'' (6, 4) (4, 4) 1000 lobby =
     ([Emit ''A'' (GAME_ERROR ''Invalid move.'')], Inr lobby)"
proof -
  have h1: "map_of (games lobby) ''g'' = Some lobby_game"
    by (simp add: lobby_def init_def)
  have h2: "(if turn lobby_game = White then white (players lobby_game)
             else black (players lobby_game)) = Some \<lparr>pid = ''A'', puser = sock_user alice\<rparr>"
    by (simp add: lobby_game_def new_game_def)
  have h3: "pid \<lparr>pid = ''A'', puser = sock_user alice\<rparr> = sock_id alice"
    by (simp add: alice_def)
  have h4: "8 \<le> length (board lobby_game)"
    by (simp add: lobby_game_def new_game_def length_initialBoard)
  have h5: "fst (6::nat, 4::nat) < length (board lobby_game)"
    by (simp add: lobby_game_def new_game_def length_initialBoard)
  have h6: "fst (4::nat, 4::nat) < length (board lobby_game)"
    by (simp add: lobby_game_def new_game_def length_initialBoard)
  have h7: "isValidMove_c pinning (flatten (board lobby_game)) (fst (6::nat, 4::nat))
              (snd (6::nat, 4::nat)) (fst (4::nat, 4::nat)) (snd (4::nat, 4::nat))
              (turn lobby_game = White)"
    by (simp add: pinning_def)
  have h8: "isKingInCheck pinning (moved (board lobby_game) (6, 4) (4, 4)) (turn lobby_game)
              (probe_c pinning) = Inr True"
    by (simp add: pinning_def)
  show ?thesis
    using C6_self_check_rejected [OF h1 h2 h3 h4 h5 h6 h7 h8, of 1000] h1 h2 h3 h4 h7 h8
    by (simp add: alice_def)
qed

subsection \<open>The unseated side\<close>

text \<open>
  C10. The lookup of the mover's socket id in \<open>GAME_MOVE\<close> is not total. From the empty
  server, an authenticated connection creates a game (with a positive time control) and
  submits one move that the engine accepts and that does not end the game: the run
  succeeds and leaves the game stored with black to move and no black player. In that
  state every \<open>GAME_MOVE\<close> for the game, from any connection and with any coordinates,
  ends in the \<open>TypeError\<close> of reading \<open>players.black.id\<close>, before anything is emitted.
\<close>

theorem C10_absent_black_dereferenced:
  assumes "sock_user a = Some u"
    and "0 < (case tc of None \<Rightarrow> 10 | Some n \<Rightarrow> n)"
    and "isValidMoveWasm orc initialBoard from to White = Inr True"
    and "isKingInCheck orc (moved initialBoard from to) Black (isValidMoveWasm orc) = Inr chk"
    and "getGameStatus orc (moved initialBoard from to) Black (isValidMoveWasm orc) = Inr None"
  shows "\<exists>outs s g. run orc init [CREATE a tc gid, MOVE a gid from to now] = (outs, Inr s) \<and>
           map_of (games s) gid = Some g \<and> turn g = Black \<and> black (players g) = None \<and>
           (\<forall>x f t n. game_move orc x gid f t n s = ([], Inl TypeError))"
proof -
  define timeMs where "timeMs = (case tc of None \<Rightarrow> 10 | Some n \<Rightarrow> n) * 60 * 1000"
  define g0 where "g0 = new_game \<lparr>white = Some \<lparr>pid = sock_id a, puser = Some u\<rparr>, black = None\<rparr> timeMs"
  define s0 where "s0 = init\<lparr>games := [(gid, g0)], rooms := (rooms init)(gid := insert (sock_id a) (rooms init gid))\<rparr>"
  have pos: "0 < timeMs" using assms(2) by (simp add: timeMs_def)
  have create: "game_create a tc gid init = ([Emit (sock_id a) (GAME_CREATED gid timeMs timeMs)], Inr s0)"
    using assms(1) by (simp add: game_create_def s0_def g0_def timeMs_def init_def Let_def)
  have rel: "relocate initialBoard from to = Inr (moved initialBoard from to)"
    using assms(3) by (rule isValidMoveWasm_relocate)
  define g4 where "g4 = g0\<lparr>lastMoveTime := Some now, board := moved initialBoard from to,
      turn := Black, check := (if chk then Some Black else None)\<rparr>"
  obtain o1 s2 where sgt: "setGameTimeout (sock_id a) gid timeMs Black
        (s0\<lparr>games := mutate gid (g0\<lparr>lastMoveTime := Some now\<rparr>) (games s0)\<rparr>) = (o1, s2)"
    by (cases "setGameTimeout (sock_id a) gid timeMs Black
        (s0\<lparr>games := mutate gid (g0\<lparr>lastMoveTime := Some now\<rparr>) (games s0)\<rparr>)")
  have o1: "o1 = []" and gs2: "games s2 = [(gid, g0\<lparr>lastMoveTime := Some now\<rparr>)]"
    using setGameTimeout_positive [OF pos, of "sock_id a" gid Black
        "s0\<lparr>games := mutate gid (g0\<lparr>lastMoveTime := Some now\<rparr>) (games s0)\<rparr>"] sgt
    by (simp_all add: s0_def mutate_def)
  define s3 where "s3 = s2\<lparr>games := mutate gid g4 (games s2)\<rparr>"
  have applied: "move_apply orc (sock_id a) gid from to now g0 s0 =
      ([ToRoom gid (GAME_STATE (board g4) (turn g4) None (check g4) (whiteTime g4) (blackTime g4) (lastMoveTime g4))], Inr s3)"
    using sgt rel assms(4,5) o1
    by (simp add: move_apply_def Let_def g0_def new_game_def g4_def s3_def)
  have move: "game_move orc a gid from to now s0 = move_apply orc (sock_id a) gid from to now g0 s0"
    using assms(3) pos
    by (simp add: game_move_def s0_def g0_def new_game_def charge_def mutate_def Let_def init_def)
  have g: "map_of (games s3) gid = Some g4"
    by (simp add: s3_def gs2 mutate_def)
  have crash: "game_move orc x gid f t n s3 = ([], Inl TypeError)" for x f t n
    using g by (simp add: game_move_def g4_def g0_def new_game_def)
  have "run orc init [CREATE a tc gid, MOVE a gid from to now] =
      ([Emit (sock_id a) (GAME_CREATED gid timeMs timeMs),
        ToRoom gid (GAME_STATE (board g4) (turn g4) None (check g4) (whiteTime g4) (blackTime g4) (lastMoveTime g4))], Inr s3)"
    by (simp add: create move applied)
  moreover have "turn g4 = Black" "black (players g4) = None"
    by (simp_all add: g4_def g0_def new_game_def)
  ultimately show ?thesis using g crash by blast
qed

theorem C10_absent_black_dereferenced_witness:
  "sock_user alice = Some \<lparr>user_id = ''1'', username = ''alice''\<rparr> \<and>
   (0::int) < (case None of None \<Rightarrow> 10 | Some n \<Rightarrow> n) \<and>
   isValidMoveWasm permissive initialBoard (6, 4) (4, 4) White = Inr True \<and>
   isKingInCheck permissive (moved initialBoard (6, 4) (4, 4)) Black (isValidMoveWasm permissive)
     = Inr False \<and>
   getGameStatus permissive (moved initialBoard (6, 4) (4, 4)) Black (isValidMoveWasm permissive)
     = Inr None \<and>
   (\<exists>outs s g.
      run permissive init [CREATE alice None ''g'', MOVE alice ''g'' (6, 4) (4, 4) 1000]
        = (outs, Inr s) \<and>
      map_of (games s) ''g'' = Some g \<and> turn g = Black \<and> black (players g) = None \<and>
      (\<forall>x f t n. game_move permissive x ''g'' f t n s = ([], Inl TypeError)))"
proof -
  have h1: "sock_user alice = Some \<lparr>user_id = ''1'', username = ''alice''\<rparr>"
    by (simp add: alice_def)
  have h2: "(0::int) < (case None of None \<Rightarrow> 10 | Some n \<Rightarrow> n)"
    by simp
  have h3: "isValidMoveWasm permissive initialBoard (6, 4) (4, 4) White = Inr True"
    by (simp add: isValidMoveWasm_def writeBoardToPtr_def relocate_def length_initialBoard
        permissive_def)
  have h4: "isKingInCheck permissive (moved initialBoard (6, 4) (4, 4)) Black
              (isValidMoveWasm permissive) = Inr False"
    by (simp add: permissive_def)
  have h5: "getGameStatus permissive (moved initialBoard (6, 4) (4, 4)) Black
              (isValidMoveWasm permissive) = Inr None"
    by (simp add: permissive_def)
  show ?thesis
    using C10_absent_black_dereferenced [OF h1 h2 h3 h4 h5, of "''g''" 1000] h1 h2 h3 h4 h5
    by blast
qed

text \<open>
  C5. The claim asks for the turn error whenever the submitter is not the participant of
  the side to move. Evaluated on the run in which \<open>alice\<close> creates a game, moves alone,
  and \<open>bob\<close> (no participant) then submits a move: the third handler throws
  \<open>TypeError\<close>; \<open>bob\<close> is sent no \<open>GAME_ERROR\<close>.
\<close>

theorem C5_unseated_black_throws:
  "run permissive init
     [CREATE alice None ''g'', MOVE alice ''g'' (6, 4) (4, 4) 1000,
      MOVE bob ''g'' (1, 4) (3, 4) 2000] =
   ([Emit ''A'' (GAME_CREATED ''g'' 600000 600000),
     ToRoom ''g'' (GAME_STATE (moved initialBoard (6, 4) (4, 4)) Black None None
        600000 600000 (Some 1000))],
    Inl TypeError)"
  by (simp add: init_def alice_def bob_def permissive_def game_create_def game_move_def
      move_apply_def isValidMoveWasm_def writeBoardToPtr_def relocate_def length_initialBoard
      new_game_def charge_def mutate_def setGameTimeout_arm clearGameTimeout_def Let_def)

subsection \<open>Matchmaking\<close>

text \<open>
  C9. The queue is not deduplicated by connection. When an authenticated connection sends
  \<open>GAME_FIND\<close> while the queue is empty, it is queued; when it sends \<open>GAME_FIND\<close> again,
  the push makes the queue hold it twice, the pairing runs, the queue is emptied, and the
  game stored under the new id has that one connection as white and as black.
\<close>

theorem C9_same_connection_paired_with_itself:
  assumes "sock_user c = Some u" and "matchmakingQueue s = []"
  shows "\<exists>s1 outs s2 g.
           game_find c gid1 coin1 now1 s = ([Emit (sock_id c) GAME_FINDING], Inr s1) \<and>
           matchmakingQueue s1 = [c] \<and>
           matchmakingQueue (enqueue c s1) = [c, c] \<and>
           game_find c gid2 coin2 now2 s1 = (outs, Inr s2) \<and>
           matchmakingQueue s2 = [] \<and>
           map_of (games s2) gid2 = Some g \<and>
           white (players g) = Some \<lparr>pid = sock_id c, puser = sock_user c\<rparr> \<and>
           black (players g) = Some \<lparr>pid = sock_id c, puser = sock_user c\<rparr>"
proof -
  define s1 where "s1 = enqueue c s"
  have q1: "matchmakingQueue s1 = [c]"
    using assms(2) by (simp add: s1_def enqueue_def)
  have first: "game_find c gid1 coin1 now1 s = ([Emit (sock_id c) GAME_FINDING], Inr s1)"
    using assms by (simp add: game_find_def s1_def enqueue_def Let_def)
  have q2: "matchmakingQueue (enqueue c s1) = [c, c]"
    using q1 by (simp add: enqueue_def)
  define pl where "pl = \<lparr>pid = sock_id c, puser = sock_user c\<rparr>"
  define g where "g = new_game \<lparr>white = Some pl, black = Some pl\<rparr> (10 * 60 * 1000)"
  obtain outs s2 where second: "game_find c gid2 coin2 now2 s1 = (outs, Inr s2)"
    and gs: "games s2 = mutate gid2 (g\<lparr>lastMoveTime := Some now2\<rparr>) (games_set (games s1) gid2 g)"
    and q3: "matchmakingQueue s2 = []"
    using assms(1) q2
    by (cases coin2)
      (simp_all add: game_find_def pair_up_def Let_def setGameTimeout_arm g_def pl_def
        new_game_def games_enqueue)
  have "map_of (games s2) gid2 = Some (g\<lparr>lastMoveTime := Some now2\<rparr>)"
    by (simp add: gs map_of_mutate map_of_games_set)
  moreover have "white (players (g\<lparr>lastMoveTime := Some now2\<rparr>)) = Some pl"
    "black (players (g\<lparr>lastMoveTime := Some now2\<rparr>)) = Some pl"
    by (simp_all add: g_def new_game_def)
  ultimately show ?thesis
    using first q1 q2 second q3 unfolding pl_def by blast
qed

theorem C9_same_connection_paired_with_itself_witness:
  "sock_user alice = Some \<lparr>user_id = ''1'', username = ''alice''\<rparr> \<and>
   matchmakingQueue init = [] \<and>
   (\<exists>s1 outs s2 g.
      game_find alice ''g1'' True 1000 init = ([Emit (sock_id alice) GAME_FINDING], Inr s1) \<and>
      matchmakingQueue s1 = [alice] \<and>
      matchmakingQueue (enqueue alice s1) = [alice, alice] \<and>
      game_find alice ''g2'' False 2000 s1 = (outs, Inr s2) \<and>
      matchmakingQueue s2 = [] \<and>
      map_of (games s2) ''g2'' = Some g \<and>
      white (players g) = Some \<lparr>pid = sock_id alice, puser = sock_user alice\<rparr> \<and>
      black (players g) = Some \<lparr>pid = sock_id alice, puser = sock_user alice\<rparr>)"
proof -
  have h1: "sock_user alice = Some \<lparr>user_id = ''1'', username = ''alice''\<rparr>"
    by (simp add: alice_def)
  have h2: "matchmakingQueue init = []"
    by (simp add: init_def)
  show ?thesis
    using C9_same_connection_paired_with_itself [OF h1 h2, of "''g1''" True 1000 "''g2''" False 2000]
      h1 h2
    by blast
qed



subsection \<open>Disconnecting\<close>

text \<open>
  C8 as stated fails for a connection that takes part in two stored games: the scan stops
  at the first one. Here \<open>alice\<close> creates \<open>g1\<close> and \<open>g2\<close> and disconnects: \<open>GAME_OVER\<close> is
  sent for \<open>g1\<close> only, and \<open>g2\<close> stays in the store with \<open>alice\<close> as white.
\<close>

theorem C8_second_session_counterexample:
  "fst (run permissive init
          [CREATE alice None ''g1'', CREATE alice None ''g2'', DISCONNECT alice]) =
     [Emit ''A'' (GAME_CREATED ''g1'' 600000 600000),
      Emit ''A'' (GAME_CREATED ''g2'' 600000 600000),
      ToRoom ''g1'' (GAME_OVER \<lparr>winner = Some Black, reason = ''Opponent disconnected.''\<rparr>),
      LogNotSaved ''g1''] \<and>
   map fst (final_games (run permissive init
          [CREATE alice None ''g1'', CREATE alice None ''g2'', DISCONNECT alice])) = [''g2''] \<and>
   map (\<lambda>p. white (players (snd p))) (final_games (run permissive init
          [CREATE alice None ''g1'', CREATE alice None ''g2'', DISCONNECT alice])) =
     [Some \<lparr>pid = ''A'', puser = sock_user alice\<rparr>]"
  by (simp add: init_def alice_def game_create_def disconnect_def participates_def
      is_player_def new_game_def clearGameTimeout_def games_delete_def saveGame_def
      final_games_def Let_def)

text \<open>
  C8, amended. On a disconnect, the first stored game (in the order of the map) in which
  the connection is white or black is ended: \<open>GAME_OVER\<close> goes to its room with reason
  \<open>Opponent disconnected.\<close> and with winner black when the connection is its white player
  and white otherwise, \<open>saveGame\<close> is called, and the game is deleted. When the connection
  is in no stored game, nothing is emitted and only the queue changes. In both cases the
  first queue entry of the connection is removed, and no game is added; a queue of at most
  one entry (as every reachable queue is, X3) no longer holds the connection.
\<close>

theorem C8_disconnect_first_session:
  "(games s = pre @ (gid, g) # post \<and>
    (\<forall>p \<in> set pre. \<not> participates (sock_id sock) (snd p)) \<and>
    participates (sock_id sock) g \<longrightarrow>
      (\<exists>s'. disconnect sock s =
          (ToRoom gid (GAME_OVER
              \<lparr>winner = Some (if is_player (sock_id sock) (white (players g))
                              then Black else White),
               reason = ''Opponent disconnected.''\<rparr>) #
           saveGame gid g
              \<lparr>winner = Some (if is_player (sock_id sock) (white (players g))
                              then Black else White),
               reason = ''Opponent disconnected.''\<rparr>,
           Inr s') \<and>
        games s' = games_delete (games s) gid \<and>
        matchmakingQueue s' = remove_first (sock_id sock) (matchmakingQueue s))) \<and>
   ((\<forall>p \<in> set (games s). \<not> participates (sock_id sock) (snd p)) \<longrightarrow>
      disconnect sock s =
        ([], Inr (s\<lparr>matchmakingQueue := remove_first (sock_id sock) (matchmakingQueue s)\<rparr>))) \<and>
   (length (matchmakingQueue s) \<le> 1 \<longrightarrow>
      sock_id sock \<notin> sock_id ` set (remove_first (sock_id sock) (matchmakingQueue s)))"
proof (intro conjI impI)
  assume a: "games s = pre @ (gid, g) # post \<and>
    (\<forall>p \<in> set pre. \<not> participates (sock_id sock) (snd p)) \<and> participates (sock_id sock) g"
  then have "find (\<lambda>p. participates (sock_id sock) (snd p)) (games s) = Some (gid, g)"
    by (simp add: find_first)
  then show "\<exists>s'. disconnect sock s =
          (ToRoom gid (GAME_OVER
              \<lparr>winner = Some (if is_player (sock_id sock) (white (players g))
                              then Black else White),
               reason = ''Opponent disconnected.''\<rparr>) #
           saveGame gid g
              \<lparr>winner = Some (if is_player (sock_id sock) (white (players g))
                              then Black else White),
               reason = ''Opponent disconnected.''\<rparr>,
           Inr s') \<and>
        games s' = games_delete (games s) gid \<and>
        matchmakingQueue s' = remove_first (sock_id sock) (matchmakingQueue s)"
    by (simp add: disconnect_def Let_def)
next
  assume "\<forall>p \<in> set (games s). \<not> participates (sock_id sock) (snd p)"
  then have "find (\<lambda>p. participates (sock_id sock) (snd p)) (games s) = None"
    by (simp add: find_none)
  then show "disconnect sock s =
        ([], Inr (s\<lparr>matchmakingQueue := remove_first (sock_id sock) (matchmakingQueue s)\<rparr>))"
    by (simp add: disconnect_def Let_def)
next
  assume "length (matchmakingQueue s) \<le> 1"
  then show "sock_id sock \<notin> sock_id ` set (remove_first (sock_id sock) (matchmakingQueue s))"
    by (rule remove_first_single)
qed

theorem C8_disconnect_first_session_witness:
  "games lobby = [] @ (''g'', lobby_game) # [] \<and>
   participates (sock_id alice) lobby_game \<and>
   (\<exists>s'. disconnect alice lobby =
      ([ToRoom ''g'' (GAME_OVER \<lparr>winner = Some Black, reason = ''Opponent disconnected.''\<rparr>),
        LogNotSaved ''g''], Inr s') \<and>
      games s' = [] \<and> matchmakingQueue s' = []) \<and>
   \<not> participates (sock_id bob) lobby_game \<and>
   length (matchmakingQueue (enqueue bob lobby)) \<le> 1 \<and>
   disconnect bob (enqueue bob lobby) =
     ([], Inr ((enqueue bob lobby)\<lparr>matchmakingQueue := []\<rparr>)) \<and>
   sock_id bob \<notin> sock_id ` set (remove_first (sock_id bob) (matchmakingQueue (enqueue bob lobby)))"
proof -
  have h1: "games lobby = [] @ (''g'', lobby_game) # []"
    by (simp add: lobby_def init_def)
  have h2: "participates (sock_id alice) lobby_game"
    by (simp add: participates_def is_player_def lobby_game_def new_game_def alice_def)
  have h3: "\<not> participates (sock_id bob) lobby_game"
    by (simp add: participates_def is_player_def lobby_game_def new_game_def bob_def)
  have h4: "length (matchmakingQueue (enqueue bob lobby)) \<le> 1"
    by (simp add: enqueue_def lobby_def init_def)
  have h5: "\<forall>p \<in> set (games (enqueue bob lobby)). \<not> participates (sock_id bob) (snd p)"
    using h3 by (simp add: enqueue_def lobby_def init_def)
  have w: "is_player (sock_id alice) (white (players lobby_game))"
    by (simp add: is_player_def lobby_game_def new_game_def alice_def)
  have q: "matchmakingQueue lobby = []" "matchmakingQueue (enqueue bob lobby) = [bob]"
    by (simp_all add: enqueue_def lobby_def init_def)
  have sv: "saveGame ''g'' lobby_game st = [LogNotSaved ''g'']" for st
    by (simp add: saveGame_def lobby_game_def new_game_def alice_def)
  show ?thesis
    using C8_disconnect_first_session [of lobby "[]" "''g''" lobby_game "[]" alice]
      C8_disconnect_first_session [of "enqueue bob lobby" "[]" "''g''" lobby_game "[]" bob]
      h1 h2 h3 h4 h5 w q sv
    by (simp add: games_delete_def)
qed

subsection \<open>Joining\<close>

text \<open>
  C3 as stated fails when black is to move at the time of the join. Here \<open>alice\<close> creates a
  game and moves alone, which flips the turn, and \<open>bob\<close> joins: the stored game has black
  to move, and the timer that the join set (timer 1, in \<open>bob\<close>'s closure) is for white.
\<close>

theorem C3_black_to_move_counterexample:
  "map (\<lambda>p. (fst p, turn (snd p))) (final_games (run permissive init
      [CREATE alice None ''g'', MOVE alice ''g'' (6, 4) (4, 4) 1000, JOIN bob ''g'' 2000]))
     = [(''g'', Black)] \<and>
   final_pending (run permissive init
      [CREATE alice None ''g'', MOVE alice ''g'' (6, 4) (4, 4) 1000, JOIN bob ''g'' 2000])
     = [(0, \<lparr>owner = ''A'', tgame = ''g'', tcolor = Black, delay = 601000\<rparr>),
        (1, \<lparr>owner = ''B'', tgame = ''g'', tcolor = White, delay = 601000\<rparr>)]"
  by (simp add: init_def alice_def bob_def permissive_def game_create_def game_move_def
      game_join_def move_apply_def isValidMoveWasm_def writeBoardToPtr_def relocate_def
      length_initialBoard new_game_def charge_def mutate_def setGameTimeout_arm
      clearGameTimeout_def final_games_def final_pending_def Let_def)

text \<open>
  C3, amended. A \<open>GAME_JOIN\<close> of an authenticated connection for a stored game without a
  black player, whose white player is another connection, seats the joiner as black, adds
  it to the room, sends it \<open>GAME_JOINED\<close> and sends the room \<open>GAME_STATE\<close> with the board,
  turn, check flag and clocks of the game, stamps the game with the current time, and
  calls \<open>setGameTimeout\<close> for white with white's remaining time: when that is positive,
  \<open>setTimeout\<close> is called for white's timeout with the delay argument \<open>whiteTime + 1000\<close>,
  in the joiner's closure (in place of the joiner's earlier timer for the id, if it has
  one); otherwise the timeout handler runs at once and the game ends with black as
  winner. In every state that a run from the empty server reaches by events of which none
  is a \<open>GAME_MOVE\<close> for the id, white is the side to move of the game.
\<close>

theorem C3_join_arms_white:
  assumes "sock_user sock = Some u"
    and "map_of (games s) gid = Some g"
    and "black (players g) = None"
    and "white (players g) = Some w"
    and "pid w \<noteq> sock_id sock"
  shows "(\<exists>o1 s'.
           game_join sock gid now s =
             ([Emit (sock_id sock) (GAME_JOINED gid Black (board g) (whiteTime g) (blackTime g)),
               ToRoom gid (GAME_STATE (board g) (turn g) (Some 2) (check g)
                  (whiteTime g) (blackTime g) (lastMoveTime g))] @ o1,
              Inr s') \<and>
           sock_id sock \<in> rooms s' gid \<and>
           (if 0 < whiteTime g then
              o1 = [] \<and>
              map_of (games s') gid =
                Some (g\<lparr>players := (players g)
                          \<lparr>black := Some \<lparr>pid = sock_id sock, puser = Some u\<rparr>\<rparr>,
                        lastMoveTime := Some now\<rparr>) \<and>
              gameTimeouts s' (sock_id sock) gid = Some (nextTimer s) \<and>
              pending s' =
                filter (\<lambda>p. Some (fst p) \<noteq> gameTimeouts s (sock_id sock) gid) (pending s) @
                [(nextTimer s, \<lparr>owner = sock_id sock, tgame = gid, tcolor = White,
                                 delay = whiteTime g + 1000\<rparr>)]
            else
              o1 = ToRoom gid (GAME_OVER \<lparr>winner = Some Black, reason = ''Timeout''\<rparr>) #
                   saveGame gid
                     (g\<lparr>players := (players g)
                          \<lparr>black := Some \<lparr>pid = sock_id sock, puser = Some u\<rparr>\<rparr>,
                        lastMoveTime := Some now\<rparr>)
                     \<lparr>winner = Some Black, reason = ''Timeout''\<rparr> \<and>
              map_of (games s') gid = None)) \<and>
         (snd (run orc init evs) = Inr s \<and> (\<forall>e \<in> set evs. \<not> moves_game gid e) \<longrightarrow>
            turn g = White)"
proof (intro conjI impI)
  show "\<exists>o1 s'.
           game_join sock gid now s =
             ([Emit (sock_id sock) (GAME_JOINED gid Black (board g) (whiteTime g) (blackTime g)),
               ToRoom gid (GAME_STATE (board g) (turn g) (Some 2) (check g)
                  (whiteTime g) (blackTime g) (lastMoveTime g))] @ o1,
              Inr s') \<and>
           sock_id sock \<in> rooms s' gid \<and>
           (if 0 < whiteTime g then
              o1 = [] \<and>
              map_of (games s') gid =
                Some (g\<lparr>players := (players g)
                          \<lparr>black := Some \<lparr>pid = sock_id sock, puser = Some u\<rparr>\<rparr>,
                        lastMoveTime := Some now\<rparr>) \<and>
              gameTimeouts s' (sock_id sock) gid = Some (nextTimer s) \<and>
              pending s' =
                filter (\<lambda>p. Some (fst p) \<noteq> gameTimeouts s (sock_id sock) gid) (pending s) @
                [(nextTimer s, \<lparr>owner = sock_id sock, tgame = gid, tcolor = White,
                                 delay = whiteTime g + 1000\<rparr>)]
            else
              o1 = ToRoom gid (GAME_OVER \<lparr>winner = Some Black, reason = ''Timeout''\<rparr>) #
                   saveGame gid
                     (g\<lparr>players := (players g)
                          \<lparr>black := Some \<lparr>pid = sock_id sock, puser = Some u\<rparr>\<rparr>,
                        lastMoveTime := Some now\<rparr>)
                     \<lparr>winner = Some Black, reason = ''Timeout''\<rparr> \<and>
              map_of (games s') gid = None)"
    using assms by (rule join_effect)
next
  assume "snd (run orc init evs) = Inr s \<and> (\<forall>e \<in> set evs. \<not> moves_game gid e)"
  then show "turn g = White"
    using unmoved_game_white_to_move [of orc evs s gid g] assms(2) by blast
qed

theorem C3_join_arms_white_witness:
  "sock_user bob = Some \<lparr>user_id = ''2'', username = ''bob''\<rparr> \<and>
   map_of (games lobby) ''g'' = Some lobby_game \<and>
   black (players lobby_game) = None \<and>
   white (players lobby_game) = Some \<lparr>pid = ''A'', puser = sock_user alice\<rparr> \<and>
   pid \<lparr>pid = ''A'', puser = sock_user alice\<rparr> \<noteq> sock_id bob \<and>
   (\<exists>s'. game_join bob ''g'' 2000 lobby =
      ([Emit ''B'' (GAME_JOINED ''g'' Black initialBoard 600000 600000),
        ToRoom ''g'' (GAME_STATE initialBoard White (Some 2) None 600000 600000 None)],
       Inr s') \<and>
      ''B'' \<in> rooms s' ''g'' \<and>
      gameTimeouts s' ''B'' ''g'' = Some 0 \<and>
      pending s' = [(0, \<lparr>owner = ''B'', tgame = ''g'', tcolor = White, delay = 601000\<rparr>)]) \<and>
   snd (run permissive init [CREATE alice None ''g'']) = Inr lobby \<and>
   \<not> moves_game ''g'' (CREATE alice None ''g'') \<and>
   turn lobby_game = White"
proof -
  have h1: "sock_user bob = Some \<lparr>user_id = ''2'', username = ''bob''\<rparr>"
    by (simp add: bob_def)
  have h2: "map_of (games lobby) ''g'' = Some lobby_game"
    by (simp add: lobby_def init_def)
  have h3: "black (players lobby_game) = None"
    by (simp add: lobby_game_def new_game_def)
  have h4: "white (players lobby_game) = Some \<lparr>pid = ''A'', puser = sock_user alice\<rparr>"
    by (simp add: lobby_game_def new_game_def)
  have h5: "pid \<lparr>pid = ''A'', puser = sock_user alice\<rparr> \<noteq> sock_id bob"
    by (simp add: bob_def)
  have h6: "snd (run permissive init [CREATE alice None ''g'']) = Inr lobby"
    by (rule lobby_is_reached)
  have h7: "\<forall>e \<in> set [CREATE alice None ''g'']. \<not> moves_game ''g'' e"
    by simp
  note inst = C3_join_arms_white [OF h1 h2 h3 h4 h5, where now = 2000 and orc = permissive
      and evs = "[CREATE alice None ''g'']"]
  have t: "turn lobby_game = White"
    using inst h6 h7 by blast
  have f: "board lobby_game = initialBoard" "whiteTime lobby_game = 600000"
    "blackTime lobby_game = 600000" "check lobby_game = None"
    "lastMoveTime lobby_game = None" "nextTimer lobby = 0" "pending lobby = []"
    "sock_id bob = ''B''"
    by (simp_all add: lobby_game_def new_game_def lobby_def init_def bob_def)
  show ?thesis
    using inst h1 h2 h3 h4 h5 h6 t
    by (auto simp: f)
qed

subsection \<open>Timers\<close>

text \<open>
  C1. The claim asks for at most one outstanding timer per game id, and that the timer set
  before a move in time never ends the game. Evaluated on the run in which \<open>alice\<close>
  creates game \<open>g\<close>, \<open>bob\<close> joins at time 2000 (which sets timer 0 for white in \<open>bob\<close>'s
  map) and \<open>alice\<close> moves at time 3000 with 600000 ms on her clock: the move looks for a
  timer in \<open>alice\<close>'s map, finds none, and sets timer 1 for black, so two timers for \<open>g\<close> are
  pending. When timer 0 then fires, the game is still stored and \<open>handleTimeout\<close> ends it
  with black as winner on time, although white moved with 599000 ms left.
\<close>

theorem C1_two_timers_and_stale_fire:
  "final_pending (run permissive init
      [CREATE alice None ''g'', JOIN bob ''g'' 2000, MOVE alice ''g'' (6, 4) (4, 4) 3000])
     = [(0, \<lparr>owner = ''B'', tgame = ''g'', tcolor = White, delay = 601000\<rparr>),
        (1, \<lparr>owner = ''A'', tgame = ''g'', tcolor = Black, delay = 601000\<rparr>)] \<and>
   map (\<lambda>p. (fst p, turn (snd p), whiteTime (snd p))) (final_games (run permissive init
      [CREATE alice None ''g'', JOIN bob ''g'' 2000, MOVE alice ''g'' (6, 4) (4, 4) 3000]))
     = [(''g'', Black, 599000)] \<and>
   overs (fst (run permissive init
      [CREATE alice None ''g'', JOIN bob ''g'' 2000, MOVE alice ''g'' (6, 4) (4, 4) 3000,
       TIMER 0]))
     = [(''g'', \<lparr>winner = Some Black, reason = ''Timeout''\<rparr>)] \<and>
   final_games (run permissive init
      [CREATE alice None ''g'', JOIN bob ''g'' 2000, MOVE alice ''g'' (6, 4) (4, 4) 3000,
       TIMER 0]) = []"
  by (simp add: init_def alice_def bob_def permissive_def game_create_def game_move_def
      game_join_def move_apply_def isValidMoveWasm_def writeBoardToPtr_def relocate_def
      length_initialBoard new_game_def charge_def mutate_def setGameTimeout_arm
      clearGameTimeout_def timer_fire_def handleTimeout_def games_delete_def saveGame_def
      final_games_def final_pending_def overs_def Let_def)

text \<open>
  C4. The claim says that a move which arrives after the mover's time ran out cancels the
  pending timer. Evaluated on the run in which \<open>alice\<close> creates game \<open>g\<close>, \<open>bob\<close> joins at
  time 2000 and \<open>alice\<close> moves at time 602500, before timer 0 (delay 601000) is due: the
  game ends with black as winner on time and is deleted, and timer 0, which sits in
  \<open>bob\<close>'s map, is still pending. The other parts of the claim hold (X2).
\<close>

theorem C4_timer_survives_timeout_on_arrival:
  "overs (fst (run permissive init
      [CREATE alice None ''g'', JOIN bob ''g'' 2000, MOVE alice ''g'' (6, 4) (4, 4) 602500]))
     = [(''g'', \<lparr>winner = Some Black, reason = ''Timeout''\<rparr>)] \<and>
   final_games (run permissive init
      [CREATE alice None ''g'', JOIN bob ''g'' 2000, MOVE alice ''g'' (6, 4) (4, 4) 602500])
     = [] \<and>
   final_pending (run permissive init
      [CREATE alice None ''g'', JOIN bob ''g'' 2000, MOVE alice ''g'' (6, 4) (4, 4) 602500])
     = [(0, \<lparr>owner = ''B'', tgame = ''g'', tcolor = White, delay = 601000\<rparr>)]"
  by (simp add: init_def alice_def bob_def permissive_def game_create_def game_move_def
      game_join_def move_apply_def isValidMoveWasm_def writeBoardToPtr_def relocate_def
      length_initialBoard new_game_def charge_def mutate_def setGameTimeout_arm
      clearGameTimeout_def games_delete_def saveGame_def
      final_games_def final_pending_def overs_def Let_def)

subsection \<open>Terminal events\<close>

text \<open>
  C2 as stated fails when \<open>randomUUID().slice(0, 8)\<close> returns an id a second time:
  \<open>games.set\<close> stores the new game without a lookup, and the id gets a terminal event for
  each of its games. Here \<open>alice\<close> creates \<open>g\<close> and disconnects, and \<open>bob\<close> creates a game
  that is given the same id and disconnects: \<open>GAME_OVER\<close> is emitted twice for \<open>g\<close>.
\<close>

theorem C2_reused_id_counterexample:
  "over_ids (fst (run permissive init
      [CREATE alice None ''g'', DISCONNECT alice, CREATE bob None ''g'', DISCONNECT bob]))
     = [''g'', ''g''] \<and>
   count_list (over_ids (fst (run permissive init
      [CREATE alice None ''g'', DISCONNECT alice, CREATE bob None ''g'', DISCONNECT bob])))
     ''g'' = 2"
  by (simp add: init_def alice_def bob_def game_create_def disconnect_def participates_def
      is_player_def new_game_def clearGameTimeout_def games_delete_def saveGame_def
      over_ids_def overs_def Let_def)

text \<open>
  C2, amended. In every run from the empty server in which each id taken from
  \<open>randomUUID\<close> is new (\<open>fresh_ids\<close>), whatever the events, the rules engine's answers
  and the way the run ends, at most one \<open>GAME_OVER\<close> is emitted for any game id. And
  ending a game that is no longer stored does nothing and throws nothing: \<open>handleTimeout\<close>
  returns the state with no message, \<open>GAME_MOVE\<close> returns at once, and the firing of a
  timer that is still pending for the id only removes that timer.
\<close>

theorem C2_at_most_one_game_over:
  "(fresh_ids orc init [] evs \<longrightarrow> count_list (over_ids (fst (run orc init evs))) gid \<le> 1) \<and>
   (map_of (games s) gid = None \<longrightarrow>
      handleTimeout c gid col s = ([], s) \<and>
      game_move orc sock gid src dst now s = ([], Inr s) \<and>
      (\<forall>tid t. map_of (pending s) tid = Some t \<and> tgame t = gid \<longrightarrow>
         step orc s (TIMER tid) =
           ([], Inr (s\<lparr>pending := filter (\<lambda>p. fst p \<noteq> tid) (pending s)\<rparr>))))"
proof (intro conjI impI allI)
  assume "fresh_ids orc init [] evs"
  then have "distinct (over_ids (fst (run orc init evs)))"
    using run_tidy [of orc init "[]" evs] by (simp add: init_def)
  then show "count_list (over_ids (fst (run orc init evs))) gid \<le> 1"
    by (rule distinct_count_le1)
next
  assume "map_of (games s) gid = None"
  then show "handleTimeout c gid col s = ([], s)"
    by (simp add: handleTimeout_def)
next
  assume "map_of (games s) gid = None"
  then show "game_move orc sock gid src dst now s = ([], Inr s)"
    by (simp add: game_move_def)
next
  fix tid t
  assume "map_of (games s) gid = None" and "map_of (pending s) tid = Some t \<and> tgame t = gid"
  then show "step orc s (TIMER tid) =
           ([], Inr (s\<lparr>pending := filter (\<lambda>p. fst p \<noteq> tid) (pending s)\<rparr>))"
    by (simp add: timer_fire_def handleTimeout_def)
qed

theorem C2_at_most_one_game_over_witness:
  "fresh_ids permissive init []
     [CREATE alice None ''g'', JOIN bob ''g'' 2000, MOVE alice ''g'' (6, 4) (4, 4) 3000,
      DISCONNECT bob, TIMER 1] \<and>
   count_list (over_ids (fst (run permissive init
     [CREATE alice None ''g'', JOIN bob ''g'' 2000, MOVE alice ''g'' (6, 4) (4, 4) 3000,
      DISCONNECT bob, TIMER 1]))) ''g'' \<le> 1 \<and>
   overs (fst (run permissive init
     [CREATE alice None ''g'', JOIN bob ''g'' 2000, MOVE alice ''g'' (6, 4) (4, 4) 3000,
      DISCONNECT bob, TIMER 1]))
     = [(''g'', \<lparr>winner = Some White, reason = ''Opponent disconnected.''\<rparr>)] \<and>
   final_pending (run permissive init
     [CREATE alice None ''g'', JOIN bob ''g'' 2000, MOVE alice ''g'' (6, 4) (4, 4) 3000,
      DISCONNECT bob])
     = [(1, \<lparr>owner = ''A'', tgame = ''g'', tcolor = Black, delay = 601000\<rparr>)] \<and>
   map_of (games (init\<lparr>pending :=
       [(1, \<lparr>owner = ''A'', tgame = ''g'', tcolor = Black, delay = 601000\<rparr>)]\<rparr>)) ''g'' = None \<and>
   handleTimeout ''A'' ''g'' Black (init\<lparr>pending :=
       [(1, \<lparr>owner = ''A'', tgame = ''g'', tcolor = Black, delay = 601000\<rparr>)]\<rparr>)
     = ([], init\<lparr>pending :=
       [(1, \<lparr>owner = ''A'', tgame = ''g'', tcolor = Black, delay = 601000\<rparr>)]\<rparr>) \<and>
   game_move permissive bob ''g'' (1, 4) (3, 4) 4000 (init\<lparr>pending :=
       [(1, \<lparr>owner = ''A'', tgame = ''g'', tcolor = Black, delay = 601000\<rparr>)]\<rparr>)
     = ([], Inr (init\<lparr>pending :=
       [(1, \<lparr>owner = ''A'', tgame = ''g'', tcolor = Black, delay = 601000\<rparr>)]\<rparr>)) \<and>
   step permissive (init\<lparr>pending :=
       [(1, \<lparr>owner = ''A'', tgame = ''g'', tcolor = Black, delay = 601000\<rparr>)]\<rparr>) (TIMER 1)
     = ([], Inr init)"
proof -
  define tr where "tr = [CREATE alice None ''g'', JOIN bob ''g'' 2000,
      MOVE alice ''g'' (6, 4) (4, 4) 3000, DISCONNECT bob, TIMER 1]"
  define st where "st = init\<lparr>pending :=
       [(1, \<lparr>owner = ''A'', tgame = ''g'', tcolor = Black, delay = 601000\<rparr>)]\<rparr>"
  have h1: "fresh_ids permissive init [] tr"
    by (simp add: tr_def init_def alice_def bob_def permissive_def game_create_def
        game_move_def game_join_def move_apply_def isValidMoveWasm_def writeBoardToPtr_def
        relocate_def length_initialBoard new_game_def charge_def mutate_def
        setGameTimeout_arm clearGameTimeout_def disconnect_def participates_def
        is_player_def games_delete_def timer_fire_def handleTimeout_def Let_def)
  have h2: "map_of (games st) ''g'' = None"
    by (simp add: st_def init_def)
  have h3: "map_of (pending st) 1 =
              Some \<lparr>owner = ''A'', tgame = ''g'', tcolor = Black, delay = 601000\<rparr> \<and>
            tgame \<lparr>owner = ''A'', tgame = ''g'', tcolor = Black, delay = 601000\<rparr> = ''g''"
    by (simp add: st_def)
  have ev: "overs (fst (run permissive init tr))
     = [(''g'', \<lparr>winner = Some White, reason = ''Opponent disconnected.''\<rparr>)]"
    by (simp add: tr_def init_def alice_def bob_def permissive_def game_create_def
        game_move_def game_join_def move_apply_def isValidMoveWasm_def writeBoardToPtr_def
        relocate_def length_initialBoard new_game_def charge_def mutate_def
        setGameTimeout_arm clearGameTimeout_def disconnect_def participates_def
        is_player_def games_delete_def saveGame_def timer_fire_def handleTimeout_def
        overs_def Let_def)
  have pe: "final_pending (run permissive init (butlast tr))
     = [(1, \<lparr>owner = ''A'', tgame = ''g'', tcolor = Black, delay = 601000\<rparr>)]"
    by (simp add: tr_def init_def alice_def bob_def permissive_def game_create_def
        game_move_def game_join_def move_apply_def isValidMoveWasm_def writeBoardToPtr_def
        relocate_def length_initialBoard new_game_def charge_def mutate_def
        setGameTimeout_arm clearGameTimeout_def disconnect_def participates_def
        is_player_def games_delete_def saveGame_def final_pending_def Let_def)
  have cl: "st\<lparr>pending := filter (\<lambda>p. fst p \<noteq> 1) (pending st)\<rparr> = init"
    by (simp add: st_def init_def)
  note inst = C2_at_most_one_game_over [of permissive tr "''g''" st "''A''" Black bob "(1, 4)"
        "(3, 4)" 4000]
  have a: "count_list (over_ids (fst (run permissive init tr))) ''g'' \<le> 1"
    using inst h1 by blast
  have b: "handleTimeout ''A'' ''g'' Black st = ([], st)"
    "game_move permissive bob ''g'' (1, 4) (3, 4) 4000 st = ([], Inr st)"
    using inst h2 by blast+
  have "step permissive st (TIMER 1) =
          ([], Inr (st\<lparr>pending := filter (\<lambda>p. fst p \<noteq> 1) (pending st)\<rparr>))"
    using inst h2 h3 by blast
  then have c: "step permissive st (TIMER 1) = ([], Inr init)"
    by (simp only: cl)
  have main: "count_list (over_ids (fst (run permissive init tr))) ''g'' \<le> 1 \<and>
      handleTimeout ''A'' ''g'' Black st = ([], st) \<and>
      game_move permissive bob ''g'' (1, 4) (3, 4) 4000 st = ([], Inr st) \<and>
      step permissive st (TIMER 1) = ([], Inr init)"
    using a b c by simp
  show ?thesis
    using h1 h2 ev pe main unfolding tr_def st_def by simp
qed

end
